theory Spec2Isabelle
  imports Main
begin

section \<open>Python values used by the script\<close>

text \<open>
  Exceptions that the modelled code can raise. All of them are subclasses of Python's
  \<open>Exception\<close>. \<open>ClientError\<close> stands for whatever exception the storage client or the
  archive writer raises; its argument is the message.
\<close>

datatype exn =
    IndexError
  | KeyError string
  | NameError string
  | ImportError string
  | ClientError string

text \<open>Sequencing of fallible steps: the first raised exception ends the computation.\<close>

definition and_then :: "exn + 'a \<Rightarrow> ('a \<Rightarrow> exn + 'b) \<Rightarrow> exn + 'b" where
  "and_then r f = (case r of Inl e \<Rightarrow> Inl e | Inr v \<Rightarrow> f v)"

text \<open>\<open>try: body except Exception as e: handler\<close>.\<close>

definition try_except :: "exn + 'a \<Rightarrow> (exn \<Rightarrow> exn + 'a) \<Rightarrow> exn + 'a" where
  "try_except body handler = (case body of Inl e \<Rightarrow> handler e | Inr v \<Rightarrow> Inr v)"

text \<open>\<open>xs[i]\<close> on a Python list: a negative index counts from the end, an index out of
  range raises IndexError.\<close>

definition py_index :: "'a list \<Rightarrow> int \<Rightarrow> exn + 'a" where
  "py_index xs i =
     (if 0 \<le> i \<and> i < int (length xs) then Inr (xs ! nat i)
      else if i < 0 \<and> - i \<le> int (length xs) then Inr (xs ! nat (int (length xs) + i))
      else Inl IndexError)"

text \<open>\<open>d[k]\<close> on a Python dict: a missing key raises KeyError with the key.\<close>

definition dict_get :: "(string \<rightharpoonup> 'v) \<Rightarrow> string \<Rightarrow> exn + 'v" where
  "dict_get d k = (case d k of None \<Rightarrow> Inl (KeyError k) | Some v \<Rightarrow> Inr v)"

subsection \<open>String methods\<close>

definition startswith :: "string \<Rightarrow> string \<Rightarrow> bool" where
  "startswith s p = (take (length p) s = p)"

definition endswith :: "string \<Rightarrow> string \<Rightarrow> bool" where
  "endswith s p = (length p \<le> length s \<and> drop (length s - length p) s = p)"

text \<open>
  \<open>s.split(sep)\<close> for a separator string: the separator is searched from the left, matches
  do not overlap, empty fields are kept. Every call in the script passes a non-empty
  literal (Python raises ValueError on an empty one; here an empty separator never matches).
\<close>

function str_split :: "string \<Rightarrow> string \<Rightarrow> string list" where
  "str_split sep [] = [[]]"
| "str_split sep (c # cs) =
     (if sep \<noteq> [] \<and> startswith (c # cs) sep
      then [] # str_split sep (drop (length sep) (c # cs))
      else (case str_split sep cs of
              [] \<Rightarrow> [[c]]
            | h # t \<Rightarrow> (c # h) # t))"
  by pat_completeness auto
termination
  by (relation "measure (\<lambda>(sep, s). length s)") auto

text \<open>\<open>s.strip(chars)\<close>: every leading and every trailing character that is in \<open>chars\<close>
  is removed.\<close>

definition str_strip :: "string \<Rightarrow> string \<Rightarrow> string" where
  "str_strip s chars =
     rev (dropWhile (\<lambda>c. c \<in> set chars) (rev (dropWhile (\<lambda>c. c \<in> set chars) s)))"

text \<open>\<open>s.rfind(c)\<close> for a one-character string: the highest index of \<open>c\<close>, or -1.\<close>

fun rfind :: "string \<Rightarrow> char \<Rightarrow> int" where
  "rfind [] c = -1"
| "rfind (x # xs) c =
     (let r = rfind xs c in
      if r \<noteq> -1 then r + 1 else if x = c then 0 else -1)"

subsection \<open>Path functions\<close>

text \<open>
  The script runs under ArcGIS Pro, on Windows, so \<open>os.path\<close> is \<open>ntpath\<close>: the separators
  are the backslash and the slash.
\<close>

definition backslash :: char where
  "backslash = CHR 0x5C"

text \<open>
  \<open>os.path.splitext(p)\<close>: the extension starts at the last dot of the last path component;
  dots that lead that component do not start an extension.
\<close>

definition os_path_splitext :: "string \<Rightarrow> string \<times> string" where
  "os_path_splitext p =
     (let sepIndex = max (rfind p backslash) (rfind p (CHR ''/''));
          dotIndex = rfind p (CHR ''.'')
      in if dotIndex > sepIndex \<and>
            (\<exists>c \<in> set (take (nat (dotIndex - (sepIndex + 1))) (drop (nat (sepIndex + 1)) p)).
               c \<noteq> CHR ''.'')
         then (take (nat dotIndex) p, drop (nat dotIndex) p)
         else (p, []))"

text \<open>
  \<open>os.path.split\<close> and \<open>os.path.join\<close> parse drive and UNC prefixes in a way that belongs
  to the interpreter, not to the script. The model takes them as a parameter; \<open>basename\<close>
  and \<open>dirname\<close> are the two halves of \<open>split\<close>, as in the library.
\<close>

record platform =
  os_path_split :: "string \<Rightarrow> string \<times> string"
  os_path_join :: "string \<Rightarrow> string \<Rightarrow> string"

definition os_path_basename :: "platform \<Rightarrow> string \<Rightarrow> string" where
  "os_path_basename P p = snd (os_path_split P p)"

definition os_path_dirname :: "platform \<Rightarrow> string \<Rightarrow> string" where
  "os_path_dirname P p = fst (os_path_split P p)"

section \<open>Grid file classifier\<close>

text \<open>
  \<open>ascfile_dict\<close> is a module-level dictionary, empty when the module is loaded.
  \<open>parse_input_files\<close> updates it in place and returns it, so the model takes the
  dictionary as it is before the call and returns it as it is afterwards.
  The argument \<open>walk\<close> is what \<open>os.walk(input_location)\<close> yields: one triple
  \<open>(root, dirs, files)\<close> per directory, in traversal order. The creation of the three
  output folders, which the function also does, is left out.
\<close>

type_synonym ascdict = "string \<rightharpoonup> string list"

definition ascfile_dict_init :: ascdict where
  "ascfile_dict_init = Map.empty"

definition classify_file :: "platform \<Rightarrow> string \<Rightarrow> ascdict \<Rightarrow> string \<Rightarrow> ascdict" where
  "classify_file P root d file =
     (if endswith file ''.asc''
      then (let (base_name, ext) = os_path_splitext file
            in case d base_name of
                 Some paths \<Rightarrow> d(base_name \<mapsto> paths @ [os_path_join P root file])
               | None \<Rightarrow> d(base_name \<mapsto> [os_path_join P root file]))
      else d)"

fun parse_walk ::
  "platform \<Rightarrow> ascdict \<Rightarrow> (string \<times> string list \<times> string list) list \<Rightarrow> ascdict" where
  "parse_walk P d [] = d"
| "parse_walk P d ((root, dirs, files) # rest) =
     parse_walk P (foldl (classify_file P root) d files) rest"

definition parse_input_files ::
  "platform \<Rightarrow> ascdict \<Rightarrow> (string \<times> string list \<times> string list) list \<Rightarrow> ascdict" where
  "parse_input_files P ascfile_dict walk = parse_walk P ascfile_dict walk"


section \<open>Lookup tables\<close>

definition lookup_month_and_season_name :: "string \<rightharpoonup> string" where
  "lookup_month_and_season_name = map_of
     [(''monthly1'', ''January''), (''monthly2'', ''February''), (''monthly3'', ''March''),
      (''monthly4'', ''April''), (''monthly5'', ''May''), (''monthly6'', ''June''),
      (''monthly7'', ''July''), (''monthly8'', ''August''), (''monthly9'', ''September''),
      (''monthly10'', ''October''), (''monthly11'', ''November''), (''monthly12'', ''December''),
      (''seasonal1'', ''Summer''), (''seasonal2'', ''Autumn''), (''seasonal3'', ''Winter''),
      (''seasonal4'', ''Spring''), (''annual'', ''Annual'')]"

definition lookup_dict_parameter :: "string \<rightharpoonup> string" where
  "lookup_dict_parameter = map_of
     [(''00'', ''Total-Rainfall''), (''01'', ''Wet-Days-GT-1mm''),
      (''02'', ''Mean-Air-Temperature''), (''03'', ''Mean-Daily-Maximum-Air-Temperature''),
      (''04'', ''Mean-Daily-Minimum-Air-Temperature''), (''09'', ''Total-Sunshine''),
      (''11'', ''Mean-Earth-Temperature-At-10cm''), (''17'', ''Mean-Daily-Global-Irradiance''),
      (''23'', ''Screen-Frost-Days''), (''33'', ''Mean-Daily-Wind-Speed-At-10m''),
      (''34'', ''Total-Penman-PET''), (''37'', ''Total-Growing-Degree-Days-GDD-base-5degC''),
      (''38'', ''Total-Growing-Degree-Days-GDD-base-10degC''), (''64'', ''Mean-9AM-RH''),
      (''68'', ''Total-Heating-Degree-Days-HDD-base-18degC''),
      (''74'', ''Days-Of-Soil-Moisture-Deficit'')]"

definition lookup_dict_region :: "string \<rightharpoonup> string" where
  "lookup_dict_region = map_of
     [(''01'', ''Northland''), (''02'', ''Auckland''), (''03'', ''Waikato''),
      (''04'', ''Bay-Of-Plenty''), (''05'', ''Gisborne''), (''06'', ''Hawkes-Bay''),
      (''07'', ''Taranaki''), (''08'', ''Manawatu-Whanganui''), (''09'', ''Wellington''),
      (''12'', ''West-Coast''), (''13'', ''Canterbury''), (''14'', ''Otago''),
      (''15'', ''Southland''), (''16'', ''Tasman''), (''17'', ''Nelson''),
      (''18'', ''Marlborough''), (''99'', ''Chatham-Islands'')]"

section \<open>Output folders\<close>

definition OUTPUT_FOLDER_CONVERTED :: string where
  "OUTPUT_FOLDER_CONVERTED =
     ''D:'' @ backslash # ''Temp'' @ backslash # ''climate_raster_grids_export'' @
     backslash # ''converted''"

definition OUTPUT_FOLDER_REGIONS :: string where
  "OUTPUT_FOLDER_REGIONS =
     ''D:'' @ backslash # ''Temp'' @ backslash # ''climate_raster_grids_export'' @
     backslash # ''regions_grids''"

definition OUTPUT_FOLDER_ZIPPED :: string where
  "OUTPUT_FOLDER_ZIPPED =
     ''D:'' @ backslash # ''Temp'' @ backslash # ''climate_raster_grids_export'' @
     backslash # ''regions_grids'' @ backslash # ''zipped''"

section \<open>Naming and metadata derivation\<close>

text \<open>
  The head of the loop body of \<open>process_files_in_ascdict\<close>: the base name is split at the
  underscores, \<open>parts[1]\<close> is read, \<open>parts[-1]\<close> is looked up in the period table. Neither the
  index nor the lookup is guarded.
\<close>

definition split_base_name :: "string \<Rightarrow> exn + (string list \<times> string \<times> string)" where
  "split_base_name base_name =
     (let parts = str_split ''_'' base_name
      in and_then (py_index parts (-1)) (\<lambda>parts_last.
         let last_name = str_split ''.'' parts_last
         in and_then (py_index parts 1) (\<lambda>parameter_code.
            and_then (dict_get lookup_month_and_season_name parts_last) (\<lambda>month_and_season.
            Inr (parts, parameter_code, month_and_season)))))"

text \<open>The format string of \<open>new_file_name\<close> is evaluated from the left: the parameter lookup
  comes before \<open>parts[4]\<close>.\<close>

definition new_file_name :: "string \<Rightarrow> exn + string" where
  "new_file_name base_name =
     and_then (split_base_name base_name) (\<lambda>(parts, parameter_code, month_and_season).
     and_then (dict_get lookup_dict_parameter parameter_code) (\<lambda>parameter_name.
     and_then (py_index parts 4) (\<lambda>parts4.
     Inr (parameter_name @ ''_'' @ parts4 @ ''_1991-2020_'' @ month_and_season))))"

section \<open>Region title\<close>

text \<open>\<open>region_title = row[1].split(" Region")[0]\<close>, then the patch for titles that begin
  with \<open>Area\<close>. A split always has a first field.\<close>

definition region_title_of :: "string \<Rightarrow> string" where
  "region_title_of display_name =
     (let title = hd (str_split '' Region'' display_name)
      in if startswith title ''Area'' then ''Chatham Islands'' else title)"

section \<open>Packaging\<close>

text \<open>
  The archive under construction: the member names written so far, and the errors that were
  logged (the file and the exception). \<open>zip_write\<close> is the outcome of
  \<open>zip_file.write(path, arcname)\<close>; \<open>listing\<close> is the result of \<open>os.listdir\<close>.
\<close>

record archive =
  members :: "string list"
  logged :: "(string \<times> exn) list"

definition zip_member ::
  "platform \<Rightarrow> (string \<Rightarrow> string \<Rightarrow> exn + unit) \<Rightarrow> string \<Rightarrow> string \<Rightarrow> archive \<Rightarrow> string
     \<Rightarrow> exn + archive" where
  "zip_member P zip_write base_clip_dir tif_base_name zip_file f =
     (if startswith f tif_base_name
      then (if endswith f ''.lock''
            then Inr zip_file
            else try_except
                   (and_then (zip_write (os_path_join P base_clip_dir f) f)
                      (\<lambda>_. Inr (zip_file\<lparr>members := members zip_file @ [f]\<rparr>)))
                   (\<lambda>e. Inr (zip_file\<lparr>logged := logged zip_file @ [(f, e)]\<rparr>)))
      else Inr zip_file)"

fun zip_members ::
  "platform \<Rightarrow> (string \<Rightarrow> string \<Rightarrow> exn + unit) \<Rightarrow> string \<Rightarrow> string \<Rightarrow> archive \<Rightarrow> string list
     \<Rightarrow> exn + archive" where
  "zip_members P zip_write base_clip_dir tif_base_name zip_file [] = Inr zip_file"
| "zip_members P zip_write base_clip_dir tif_base_name zip_file (f # listing) =
     and_then (zip_member P zip_write base_clip_dir tif_base_name zip_file f)
       (\<lambda>zip_file'. zip_members P zip_write base_clip_dir tif_base_name zip_file' listing)"

text \<open>The archive is opened in mode \<open>w\<close>, so it starts empty; opening it is taken to
  succeed. The result is the archive's path and its content.\<close>

definition package ::
  "platform \<Rightarrow> (string \<Rightarrow> string list) \<Rightarrow> (string \<Rightarrow> string \<Rightarrow> exn + unit) \<Rightarrow> string
     \<Rightarrow> exn + (string \<times> archive)" where
  "package P listdir zip_write output_clipped_raster =
     (let (base_clip_dir, base_clip_name) = os_path_split P output_clipped_raster;
          (tif_base_name, tif_ext) = os_path_splitext base_clip_name;
          zip_file_path = os_path_join P OUTPUT_FOLDER_ZIPPED (tif_base_name @ ''.zip'')
      in and_then
           (zip_members P zip_write base_clip_dir tif_base_name
              \<lparr>members = [], logged = []\<rparr> (listdir base_clip_dir))
           (\<lambda>zip_file. Inr (zip_file_path, zip_file)))"

section \<open>Upload\<close>

text \<open>
  The storage resource \<open>s3\<close> is a module-level name that is bound only when \<open>boto3\<close> could be
  imported: the guard catches ImportError and nothing else. A bound resource is modelled by
  the outcome of \<open>s3.Bucket(bucket_name).upload_file(file_path, object_name)\<close>.
\<close>

type_synonym s3_resource = "string \<Rightarrow> string \<Rightarrow> string \<Rightarrow> exn + unit"

definition boto3_import_guard :: "exn + s3_resource \<Rightarrow> exn + s3_resource option" where
  "boto3_import_guard body =
     (case body of
        Inr resource \<Rightarrow> Inr (Some resource)
      | Inl (ImportError msg) \<Rightarrow> Inr None
      | Inl e \<Rightarrow> Inl e)"

text \<open>Using the name \<open>s3\<close> when it is unbound raises NameError.\<close>

definition s3_upload_file ::
  "s3_resource option \<Rightarrow> string \<Rightarrow> string \<Rightarrow> string \<Rightarrow> exn + unit" where
  "s3_upload_file s3 bucket_name file_path object_name =
     (case s3 of
        None \<Rightarrow> Inl (NameError ''s3'')
      | Some resource \<Rightarrow> resource bucket_name file_path object_name)"

text \<open>The optional argument \<open>prefix\<close> is \<open>None\<close> by default; \<open>if prefix:\<close> is false for
  \<open>None\<close> and for the empty string.\<close>

definition object_name :: "platform \<Rightarrow> string \<Rightarrow> string option \<Rightarrow> string" where
  "object_name P file_path prefix =
     (let file_name = os_path_basename P file_path
      in case prefix of
           None \<Rightarrow> file_name
         | Some p \<Rightarrow> if p \<noteq> [] then str_strip p ''/'' @ ''/'' @ file_name else file_name)"

definition upload_file ::
  "platform \<Rightarrow> s3_resource option \<Rightarrow> string \<Rightarrow> string \<Rightarrow> string option \<Rightarrow> exn + bool" where
  "upload_file P s3 file_path bucket_name prefix =
     try_except
       (and_then (s3_upload_file s3 bucket_name file_path (object_name P file_path prefix))
          (\<lambda>_. Inr True))
       (\<lambda>e. Inr False)"

section \<open>Metadata emitter\<close>

text \<open>
  JSON documents. The numbers are the coordinates handed over by the GIS toolkit; they are
  passed through unchanged, so their type is left open.
\<close>

datatype 'n json =
    JString string
  | JNumber 'n
  | JArray "'n json list"
  | JObject "(string \<times> 'n json) list"

text \<open>The two date bounds: \<open>datetime.strptime(...).isoformat()\<close> of the module-level
  constants \<open>START_DATE_STR\<close> and \<open>STOP_DATE_STR\<close>.\<close>

definition iso_date_str_start :: string where
  "iso_date_str_start = ''1991-01-01T00:00:00''"

definition iso_date_str_stop :: string where
  "iso_date_str_stop = ''2020-12-31T00:00:00''"

text \<open>
  \<open>create_json_file\<close>. The parameters \<open>reproject\<close> and \<open>iso_string\<close> stand for the
  environment: \<open>reproject extent\<close> is, for every row that the cursor over the reprojected
  extent polygon yields, the points of part 0 of its shape; \<open>iso_string\<close> is
  \<open>datetime.now().isoformat()\<close> at the time of the call. The result is the path that the
  function returns together with the document that it writes there.
\<close>

definition create_json_file ::
  "platform \<Rightarrow> ('e \<Rightarrow> ('n \<times> 'n) list list) \<Rightarrow> string \<Rightarrow>
     string \<Rightarrow> string \<Rightarrow> 'e \<Rightarrow> string \<Rightarrow> string \<Rightarrow> exn + (string \<times> 'n json)" where
  "create_json_file P reproject iso_string file_path prefix extent region_title month_and_season =
     (let file_name = os_path_basename P file_path;
          file_stem = fst (os_path_splitext file_name);
          components = str_split ''_'' file_name
      in and_then (py_index components 0) (\<lambda>components0.
         let type_param = map (\<lambda>char. if char \<noteq> CHR ''-'' then char else CHR '' '') components0
         in and_then (py_index components 2) (\<lambda>period.
            and_then (py_index components 1) (\<lambda>statistic.
            and_then (py_index components (-1)) (\<lambda>components_last.
            and_then (py_index (str_split ''.'' components_last) 0) (\<lambda>region.
            let coordinates =
                  map (\<lambda>part. JArray (map (\<lambda>(x, y). JArray [JNumber x, JNumber y]) part))
                      (reproject extent);
                geojson = JObject [(''type'', JString ''Polygon''),
                                   (''coordinates'', JArray coordinates)];
                iso_date_str_startz = iso_date_str_start @ ''Z'';
                iso_date_str_stopz = iso_date_str_stop @ ''Z'';
                iso_stringz = iso_string @ ''Z'';
                json_data = JObject
                  [(''src'', JString (''/'' @ prefix @ ''/'' @ file_stem @ ''.zip'')),
                   (''productRef'', JString prefix),
                   (''metadata'', JObject
                      [(''title'', JString (''Climatology Grid '' @ type_param @
                          '' (1991-2020), '' @ month_and_season @ '', Region: '' @ region_title)),
                       (''description'', JString (''This dataset comprises a 500m resolution '' @
                          ''grid of climatologic normals (averages) for: Parameter: '' @
                          type_param @ ''; Statistic: '' @ statistic @ ''; Period: '' @ period @
                          ''; '' @ month_and_season @ ''; Region: '' @ region_title)),
                       (''geojson'', geojson),
                       (''dateMin'', JObject [(''$date'', JString iso_date_str_startz)]),
                       (''dateMax'', JObject [(''$date'', JString iso_date_str_stopz)]),
                       (''version'', JString ''1.0''),
                       (''updatedAt'', JObject [(''$date'', JString iso_stringz)]),
                       (''parameter'', JString type_param),
                       (''period'', JString month_and_season),
                       (''statistic'', JString statistic),
                       (''region'', JString region_title)])];
                (base_json_dir, base_json_file_name) = os_path_split P file_path;
                json_file_name = fst (os_path_splitext base_json_file_name) @ ''.json'';
                json_file_path = os_path_join P OUTPUT_FOLDER_ZIPPED json_file_name
            in Inr (json_file_path, json_data)))))))"

text \<open>Reading a field of a JSON object (the keys of the documents above are distinct).\<close>

fun json_field :: "string \<Rightarrow> 'n json \<Rightarrow> 'n json option" where
  "json_field k (JObject items) = map_of items k"
| "json_field k (JString s) = None"
| "json_field k (JNumber n) = None"
| "json_field k (JArray xs) = None"

text \<open>Reading along a path of keys.\<close>

fun json_path :: "string list \<Rightarrow> 'n json \<Rightarrow> 'n json option" where
  "json_path [] doc = Some doc"
| "json_path (k # ks) doc =
     (case json_field k doc of None \<Rightarrow> None | Some v \<Rightarrow> json_path ks v)"

section \<open>The processing loop\<close>

text \<open>
  What \<open>process_files_in_ascdict\<close> takes from its environment: the rows of the search cursor
  over the region layer (region code, display name, extent of the shape), the directory
  listings, the outcome of writing an archive member, the storage resource, the
  reprojection of an extent, and the clock (the time at which the metadata of a given
  raster is written). The raster operations themselves (copy, projection, clip) are
  delegated to the toolkit and are not part of the model.
\<close>

record ('e, 'n) world =
  cursor_rows :: "(string \<times> string \<times> 'e) list"
  listdir :: "string \<Rightarrow> string list"
  zip_write :: "string \<Rightarrow> string \<Rightarrow> exn + unit"
  s3 :: "s3_resource option"
  reproject :: "'e \<Rightarrow> ('n \<times> 'n) list list"
  now_isoformat :: "string \<Rightarrow> string"

text \<open>What one region of one grid file leaves behind.\<close>

record 'n product =
  product_zip :: "string \<times> archive"
  product_zip_uploaded :: bool
  product_md :: "string \<times> 'n json"
  product_md_uploaded :: bool

text \<open>The body of the cursor loop for one row. Region code 99 is skipped.\<close>

definition process_row ::
  "platform \<Rightarrow> ('e, 'n) world \<Rightarrow> string \<Rightarrow> string \<Rightarrow> string \<Rightarrow> string \<Rightarrow> string \<Rightarrow>
     string \<times> string \<times> 'e \<Rightarrow> exn + 'n product option" where
  "process_row P W bucket prefix output_folder_converted_region name month_and_season row =
     (case row of (region_code, display_name, region_extent) \<Rightarrow>
        if region_code = ''99'' then Inr None
        else
          and_then (dict_get lookup_dict_region region_code) (\<lambda>region_name.
          let title = region_title_of display_name
          in and_then (py_index (str_split ''.'' name) 0) (\<lambda>name_head.
             let output_clipped_raster =
                   os_path_join P output_folder_converted_region
                     (name_head @ ''_'' @ region_name @ ''.tif'')
             in and_then (package P (listdir W) (zip_write W) output_clipped_raster)
                  (\<lambda>zipped.
                and_then (upload_file P (s3 W) (fst zipped) bucket (Some prefix))
                  (\<lambda>zip_ok.
                and_then (create_json_file P (reproject W)
                            (now_isoformat W output_clipped_raster) output_clipped_raster
                            prefix region_extent title month_and_season)
                  (\<lambda>md.
                and_then (upload_file P (s3 W) (fst md) bucket (Some prefix))
                  (\<lambda>md_ok.
                Inr (Some \<lparr>product_zip = zipped, product_zip_uploaded = zip_ok,
                           product_md = md, product_md_uploaded = md_ok\<rparr>))))))))"

fun process_rows ::
  "platform \<Rightarrow> ('e, 'n) world \<Rightarrow> string \<Rightarrow> string \<Rightarrow> string \<Rightarrow> string \<Rightarrow> string \<Rightarrow>
     (string \<times> string \<times> 'e) list \<Rightarrow> exn + 'n product list" where
  "process_rows P W bucket prefix folder name month_and_season [] = Inr []"
| "process_rows P W bucket prefix folder name month_and_season (row # rows) =
     and_then (process_row P W bucket prefix folder name month_and_season row) (\<lambda>r.
     and_then (process_rows P W bucket prefix folder name month_and_season rows) (\<lambda>rs.
     Inr (case r of None \<Rightarrow> rs | Some product \<Rightarrow> product # rs)))"

text \<open>The body of the loop over the files of one group. The name derivation is not inside
  any \<open>try\<close>: an exception raised there leaves \<open>process_files_in_ascdict\<close>.\<close>

definition process_file ::
  "platform \<Rightarrow> ('e, 'n) world \<Rightarrow> string \<Rightarrow> string \<Rightarrow> string \<Rightarrow> string
     \<Rightarrow> exn + 'n product list" where
  "process_file P W bucket prefix base_name file_path =
     (let region_code = os_path_basename P (os_path_dirname P file_path);
          output_folder_converted_region = os_path_join P OUTPUT_FOLDER_REGIONS region_code
      in and_then (split_base_name base_name) (\<lambda>(parts, parameter_code, month_and_season).
         and_then (new_file_name base_name) (\<lambda>name.
         process_rows P W bucket prefix output_folder_converted_region name month_and_season
           (cursor_rows W))))"

fun process_file_list ::
  "platform \<Rightarrow> ('e, 'n) world \<Rightarrow> string \<Rightarrow> string \<Rightarrow> string \<Rightarrow> string list
     \<Rightarrow> exn + 'n product list" where
  "process_file_list P W bucket prefix base_name [] = Inr []"
| "process_file_list P W bucket prefix base_name (file_path # file_list) =
     and_then (process_file P W bucket prefix base_name file_path) (\<lambda>r.
     and_then (process_file_list P W bucket prefix base_name file_list) (\<lambda>rs.
     Inr (r @ rs)))"

text \<open>The argument \<open>ascfile_items\<close> is \<open>ascfile_dict.items()\<close>: the groups in the order in
  which their keys were inserted.\<close>

fun process_files_in_ascdict ::
  "platform \<Rightarrow> ('e, 'n) world \<Rightarrow> (string \<times> string list) list \<Rightarrow> string \<Rightarrow> string
     \<Rightarrow> exn + 'n product list" where
  "process_files_in_ascdict P W [] bucket prefix = Inr []"
| "process_files_in_ascdict P W ((base_name, file_list) # ascfile_items) bucket prefix =
     and_then (process_file_list P W bucket prefix base_name file_list) (\<lambda>r.
     and_then (process_files_in_ascdict P W ascfile_items bucket prefix) (\<lambda>rs.
     Inr (r @ rs)))"

section \<open>A concrete platform\<close>

text \<open>
  For evaluating the model on sample inputs: \<open>split\<close> and \<open>join\<close> as \<open>ntpath\<close> computes
  them on paths with or without a drive letter (UNC and device prefixes are left out), the
  second argument of \<open>join\<close> being a plain file name.
\<close>

definition is_sep :: "char \<Rightarrow> bool" where
  "is_sep c = (c = backslash \<or> c = CHR ''/'')"

definition splitdrive_letter :: "string \<Rightarrow> string \<times> string" where
  "splitdrive_letter p =
     (if take 1 (drop 1 p) = '':'' then (take 2 p, drop 2 p) else ([], p))"

definition ntpath_split :: "string \<Rightarrow> string \<times> string" where
  "ntpath_split p =
     (let (d, rest) = splitdrive_letter p;
          tail = rev (takeWhile (\<lambda>c. \<not> is_sep c) (rev rest));
          head = take (length rest - length tail) rest;
          stripped = rev (dropWhile is_sep (rev head))
      in (d @ (if stripped \<noteq> [] then stripped else head), tail))"

definition ntpath_join :: "string \<Rightarrow> string \<Rightarrow> string" where
  "ntpath_join path name =
     (let (d, rest) = splitdrive_letter path
      in if rest \<noteq> [] \<and> \<not> is_sep (last rest) then path @ backslash # name
         else path @ name)"

text \<open>\<open>os.path.isabs\<close> on such paths: after the drive letter, the path begins with a
  separator.\<close>

definition ntpath_isabs :: "string \<Rightarrow> bool" where
  "ntpath_isabs p =
     (let (d, rest) = splitdrive_letter p
      in rest \<noteq> [] \<and> is_sep (hd rest))"

definition ntpath :: platform where
  "ntpath = \<lparr>os_path_split = ntpath_split, os_path_join = ntpath_join\<rparr>"

section \<open>Vocabulary of the properties\<close>

text \<open>\<open>s.rstrip(chars)\<close>: the trailing characters that are in \<open>chars\<close> are removed.\<close>

definition str_rstrip :: "string \<Rightarrow> string \<Rightarrow> string" where
  "str_rstrip s chars = rev (dropWhile (\<lambda>c. c \<in> set chars) (rev s))"

text \<open>The grid files of a traversal, in traversal order, each with the directory it was
  found in.\<close>

definition asc_files :: "(string \<times> string list \<times> string list) list \<Rightarrow> (string \<times> string) list" where
  "asc_files walk =
     concat (map (\<lambda>(root, dirs, files).
                    map (Pair root) (filter (\<lambda>f. endswith f ''.asc'') files)) walk)"

text \<open>The stem of a file name, and the paths of the files of one stem, in the order of the
  entries.\<close>

definition stem :: "string \<Rightarrow> string" where
  "stem f = fst (os_path_splitext f)"

text \<open>The separator \<open>sep\<close> occurs in \<open>s\<close> at index \<open>i\<close>.\<close>

definition occurs_at :: "string \<Rightarrow> string \<Rightarrow> nat \<Rightarrow> bool" where
  "occurs_at sep s i = startswith (drop i s) sep"

text \<open>A name that ends in the grid extension, without its last four characters.\<close>

definition strip_asc :: "string \<Rightarrow> string" where
  "strip_asc f = take (length f - 4) f"

definition group_paths :: "platform \<Rightarrow> string \<Rightarrow> (string \<times> string) list \<Rightarrow> string list" where
  "group_paths P k entries =
     map (\<lambda>(root, f). os_path_join P root f) (filter (\<lambda>(root, f). stem f = k) entries)"

text \<open>What a dictionary holds under a key after the paths \<open>new\<close> have been added to it.\<close>

definition extend :: "ascdict \<Rightarrow> string \<Rightarrow> string list \<Rightarrow> string list option" where
  "extend d k new =
     (case d k of
        None \<Rightarrow> if new = [] then None else Some new
      | Some paths \<Rightarrow> Some (paths @ new))"

text \<open>The directory and the base name that the packaging stage derives from the path of a
  clipped raster, and whether a file of that directory can be written to the archive.\<close>

definition base_clip_dir :: "platform \<Rightarrow> string \<Rightarrow> string" where
  "base_clip_dir P output_clipped_raster = fst (os_path_split P output_clipped_raster)"

definition tif_base_name :: "platform \<Rightarrow> string \<Rightarrow> string" where
  "tif_base_name P output_clipped_raster =
     fst (os_path_splitext (snd (os_path_split P output_clipped_raster)))"

definition written ::
  "platform \<Rightarrow> (string \<Rightarrow> string \<Rightarrow> exn + unit) \<Rightarrow> string \<Rightarrow> string \<Rightarrow> bool" where
  "written P zw output_clipped_raster f =
     (zw (os_path_join P (base_clip_dir P output_clipped_raster) f) f = Inr ())"

text \<open>The underscore-delimited segments of the name of the file that is handed to the
  metadata emitter, and the replacement of dashes by spaces.\<close>

definition components :: "platform \<Rightarrow> string \<Rightarrow> string list" where
  "components P file_path = str_split ''_'' (os_path_basename P file_path)"

definition dash_to_space :: "string \<Rightarrow> string" where
  "dash_to_space s = map (\<lambda>c. if c \<noteq> CHR ''-'' then c else CHR '' '') s"

text \<open>A field of the document that the emitter has written, if it has written one.\<close>

definition document_field :: "string list \<Rightarrow> exn + (string \<times> 'n json) \<Rightarrow> 'n json option" where
  "document_field ks result =
     (case result of
        Inl e \<Rightarrow> None
      | Inr (json_file_path, json_data) \<Rightarrow> json_path ks json_data)"

text \<open>A document without the field \<open>updatedAt\<close> of its metadata block.\<close>

fun delete_key :: "string \<Rightarrow> 'n json \<Rightarrow> 'n json" where
  "delete_key k (JObject items) = JObject (filter (\<lambda>(k', v). k' \<noteq> k) items)"
| "delete_key k (JString s) = JString s"
| "delete_key k (JNumber n) = JNumber n"
| "delete_key k (JArray xs) = JArray xs"

fun without_updatedAt :: "'n json \<Rightarrow> 'n json" where
  "without_updatedAt (JObject items) =
     JObject (map (\<lambda>(k, v). if k = ''metadata'' then (k, delete_key ''updatedAt'' v) else (k, v))
                  items)"
| "without_updatedAt (JString s) = JString s"
| "without_updatedAt (JNumber n) = JNumber n"
| "without_updatedAt (JArray xs) = JArray xs"

text \<open>A world for the sample runs: one region row, an empty output directory, no storage
  resource.\<close>

definition sample_world :: "(unit, int) world" where
  "sample_world =
     \<lparr>cursor_rows = [(''14'', ''Otago Region'', ())],
      listdir = (\<lambda>d. []),
      zip_write = (\<lambda>path arcname. Inr ()),
      s3 = None,
      reproject = (\<lambda>e. []),
      now_isoformat = (\<lambda>path. ''2024-06-24T12:00:00'')\<rparr>"

text \<open>A traversal for the sample runs: two region folders that hold a grid of the same
  name.\<close>

definition sample_walk :: "(string \<times> string list \<times> string list) list" where
  "sample_walk =
     [(''grids'', [''13'', ''14''], []),
      (''grids'' @ backslash # ''13'', [], [''g_00_a_b_c_monthly1.asc'', ''readme.txt'']),
      (''grids'' @ backslash # ''14'', [],
         [''g_00_a_b_c_monthly1.asc'', ''g_01_a_b_c_annual.asc''])]"

text \<open>An output directory after a clip, and an archive writer that fails on the world
  file.\<close>

definition sample_listdir :: "string \<Rightarrow> string list" where
  "sample_listdir d =
     [''Total-Sunshine_c_1991-2020_Annual_Otago.tfw'',
      ''Total-Sunshine_c_1991-2020_Annual_Otago.tif'',
      ''Total-Sunshine_c_1991-2020_Annual_Otago.tif.aux.xml'',
      ''Total-Sunshine_c_1991-2020_Annual_Otago.tif.lock'',
      ''Total-Sunshine_c_1991-2020_Annual_Nelson.tif'']"

definition sample_zip_write :: "string \<Rightarrow> string \<Rightarrow> exn + unit" where
  "sample_zip_write path arcname =
     (if endswith arcname ''.tfw'' then Inl (ClientError ''Permission denied'') else Inr ())"

text \<open>A storage resource that refuses every upload, and one that accepts every upload.\<close>

definition refusing_s3 :: s3_resource where
  "refusing_s3 bucket_name file_path key = Inl (ClientError ''AccessDenied'')"

definition accepting_s3 :: s3_resource where
  "accepting_s3 bucket_name file_path key = Inr ()"

text \<open>The path of a clipped raster for the sample runs.\<close>

definition sample_raster :: string where
  "sample_raster =
     OUTPUT_FOLDER_REGIONS @ backslash # ''13'' @ backslash #
     ''Total-Rainfall_mm_1991-2020_January_Bay-Of-Plenty.tif''"

section \<open>Basic facts about the Python operations\<close>

lemma str_split_not_Nil: "str_split sep s \<noteq> []"
  by (induction sep s rule: str_split.induct) (auto split: list.splits)

lemma py_index_nth: "n < length xs \<Longrightarrow> py_index xs (int n) = Inr (xs ! n)"
  by (simp add: py_index_def)

lemma py_index_beyond: "length xs \<le> n \<Longrightarrow> py_index xs (int n) = Inl IndexError"
  by (simp add: py_index_def)

lemma py_index_last: "xs \<noteq> [] \<Longrightarrow> py_index xs (-1) = Inr (last xs)"
proof -
  assume ne: "xs \<noteq> []"
  then have len: "1 \<le> int (length xs)" by (cases xs) auto
  have "nat (int (length xs) + (-1)) = length xs - 1" by simp
  with ne len show ?thesis
    by (simp add: py_index_def last_conv_nth)
qed

section \<open>Product names\<close>

lemma split_base_name_eq:
  assumes "2 \<le> length (str_split ''_'' base_name)"
  shows "split_base_name base_name =
     (case lookup_month_and_season_name (last (str_split ''_'' base_name)) of
        None \<Rightarrow> Inl (KeyError (last (str_split ''_'' base_name)))
      | Some period_name \<Rightarrow>
          Inr (str_split ''_'' base_name, str_split ''_'' base_name ! 1, period_name))"
proof -
  have one: "py_index (str_split ''_'' base_name) 1 = Inr (str_split ''_'' base_name ! 1)"
    using assms py_index_nth [of 1 "str_split ''_'' base_name"] by simp
  show ?thesis
    by (simp add: split_base_name_def and_then_def dict_get_def one Let_def
          py_index_last [OF str_split_not_Nil] split: option.splits)
qed

lemma new_file_name_failure_leaves_process_file:
  "new_file_name base_name = Inl e \<Longrightarrow>
   process_file P W bucket prefix base_name file_path = Inl e"
  by (auto simp: process_file_def new_file_name_def and_then_def Let_def
           split: sum.splits prod.splits)

text \<open>
  C4. A base name with at least five underscore-delimited segments: when segment 1 is a key
  of the parameter table and the last segment is a key of the period table, the product name
  is the parameter name, segment 4, the constant \<open>1991-2020\<close> and the period name, joined by
  underscores; when one of the two codes is missing the derivation raises KeyError (for the
  period code first). Nothing in the processing loop catches the exception: it leaves
  \<open>process_files_in_ascdict\<close> when the file is reached.
\<close>

theorem new_file_name_composed:
  assumes "5 \<le> length (str_split ''_'' base_name)"
  shows "new_file_name base_name =
          (case lookup_month_and_season_name (last (str_split ''_'' base_name)) of
             None \<Rightarrow> Inl (KeyError (last (str_split ''_'' base_name)))
           | Some period_name \<Rightarrow>
              (case lookup_dict_parameter (str_split ''_'' base_name ! 1) of
                 None \<Rightarrow> Inl (KeyError (str_split ''_'' base_name ! 1))
               | Some parameter_name \<Rightarrow>
                   Inr (parameter_name @ ''_'' @ str_split ''_'' base_name ! 4 @
                        ''_1991-2020_'' @ period_name)))
       \<and> (\<forall>e. new_file_name base_name = Inl e \<longrightarrow>
              process_files_in_ascdict P W ((base_name, file_path # file_list) # ascfile_items)
                bucket prefix = Inl e)"
proof -
  have two: "2 \<le> length (str_split ''_'' base_name)"
    using assms by simp
  have four: "py_index (str_split ''_'' base_name) 4 = Inr (str_split ''_'' base_name ! 4)"
    using assms py_index_nth [of 4 "str_split ''_'' base_name"] by simp
  have name: "new_file_name base_name =
          (case lookup_month_and_season_name (last (str_split ''_'' base_name)) of
             None \<Rightarrow> Inl (KeyError (last (str_split ''_'' base_name)))
           | Some period_name \<Rightarrow>
              (case lookup_dict_parameter (str_split ''_'' base_name ! 1) of
                 None \<Rightarrow> Inl (KeyError (str_split ''_'' base_name ! 1))
               | Some parameter_name \<Rightarrow>
                   Inr (parameter_name @ ''_'' @ str_split ''_'' base_name ! 4 @
                        ''_1991-2020_'' @ period_name)))"
    by (simp add: new_file_name_def split_base_name_eq [OF two] and_then_def dict_get_def four
          split: option.splits)
  have leaves: "process_files_in_ascdict P W
                  ((base_name, file_path # file_list) # ascfile_items) bucket prefix = Inl e"
    if "new_file_name base_name = Inl e" for e
    using new_file_name_failure_leaves_process_file [OF that, of P W bucket prefix file_path]
    by (simp add: and_then_def)
  from name leaves show ?thesis by blast
qed

theorem new_file_name_composed_witness:
  "5 \<le> length (str_split ''_'' ''grid_00_mean_nz_500m_monthly1'')
   \<and> new_file_name ''grid_00_mean_nz_500m_monthly1'' =
       Inr ''Total-Rainfall_500m_1991-2020_January''
   \<and> 5 \<le> length (str_split ''_'' ''grid_zz_mean_nz_500m_monthly1'')
   \<and> process_files_in_ascdict ntpath sample_world
         [(''grid_zz_mean_nz_500m_monthly1'', [''grids/13/grid_zz_mean_nz_500m_monthly1.asc''])]
         ''COMPANY-data-hub'' ''climatology-grids'' = Inl (KeyError ''zz'')"
proof -
  have h1: "5 \<le> length (str_split ''_'' ''grid_00_mean_nz_500m_monthly1'')"
    by code_simp
  have h2: "5 \<le> length (str_split ''_'' ''grid_zz_mean_nz_500m_monthly1'')"
    by code_simp
  have v1: "(case lookup_month_and_season_name
                    (last (str_split ''_'' ''grid_00_mean_nz_500m_monthly1'')) of
               None \<Rightarrow> Inl (KeyError (last (str_split ''_'' ''grid_00_mean_nz_500m_monthly1'')))
             | Some period_name \<Rightarrow>
                (case lookup_dict_parameter
                        (str_split ''_'' ''grid_00_mean_nz_500m_monthly1'' ! 1) of
                   None \<Rightarrow> Inl (KeyError (str_split ''_'' ''grid_00_mean_nz_500m_monthly1'' ! 1))
                 | Some parameter_name \<Rightarrow>
                     Inr (parameter_name @ ''_'' @
                          str_split ''_'' ''grid_00_mean_nz_500m_monthly1'' ! 4 @
                          ''_1991-2020_'' @ period_name)))
            = Inr ''Total-Rainfall_500m_1991-2020_January''"
    by code_simp
  have v2: "new_file_name ''grid_zz_mean_nz_500m_monthly1'' = Inl (KeyError ''zz'')"
    by code_simp
  have r1: "new_file_name ''grid_00_mean_nz_500m_monthly1'' =
              Inr ''Total-Rainfall_500m_1991-2020_January''"
    by (rule trans [OF new_file_name_composed [OF h1, THEN conjunct1] v1])
  have r2: "process_files_in_ascdict ntpath sample_world
         [(''grid_zz_mean_nz_500m_monthly1'', [''grids/13/grid_zz_mean_nz_500m_monthly1.asc''])]
         ''COMPANY-data-hub'' ''climatology-grids'' = Inl (KeyError ''zz'')"
    by (rule new_file_name_composed [OF h2, THEN conjunct2, rule_format, OF v2])
  from h1 h2 r1 r2 show ?thesis by blast
qed

section \<open>Region titles\<close>

text \<open>The first field of a split is what stands before the first occurrence of the
  separator; without an occurrence it is the whole string.\<close>

lemma str_split_hd_before_first:
  assumes "sep \<noteq> []" and "\<forall>i < length a. \<not> occurs_at sep (a @ sep @ b) i"
  shows "hd (str_split sep (a @ sep @ b)) = a"
  using assms(2)
proof (induction a)
  case Nil
  from assms(1) obtain c cs where sep: "sep = c # cs" by (cases sep) auto
  have "startswith (sep @ b) sep" by (simp add: startswith_def)
  then show ?case using assms(1) by (simp add: sep)
next
  case (Cons x a)
  from Cons.prems have no0: "\<not> startswith (x # a @ sep @ b) sep"
    by (force simp: occurs_at_def)
  have "\<forall>i < length a. \<not> occurs_at sep (a @ sep @ b) i"
  proof (intro allI impI)
    fix i assume "i < length a"
    then have "\<not> occurs_at sep ((x # a) @ sep @ b) (Suc i)"
      using Cons.prems by auto
    then show "\<not> occurs_at sep (a @ sep @ b) i"
      by (simp add: occurs_at_def)
  qed
  then have IH: "hd (str_split sep (a @ sep @ b)) = a"
    by (rule Cons.IH)
  obtain h t where ht: "str_split sep (a @ sep @ b) = h # t"
    using str_split_not_Nil [of sep "a @ sep @ b"] by (cases "str_split sep (a @ sep @ b)") auto
  with IH have "h = a" by simp
  with no0 ht show ?case by simp
qed

lemma str_split_no_occurrence:
  assumes "\<forall>i < length s. \<not> occurs_at sep s i"
  shows "str_split sep s = [s]"
  using assms
proof (induction s)
  case Nil
  show ?case by simp
next
  case (Cons x s)
  from Cons.prems have no0: "\<not> startswith (x # s) sep"
    by (force simp: occurs_at_def)
  have "\<forall>i < length s. \<not> occurs_at sep s i"
  proof (intro allI impI)
    fix i assume "i < length s"
    then have "\<not> occurs_at sep (x # s) (Suc i)"
      using Cons.prems by auto
    then show "\<not> occurs_at sep s i"
      by (simp add: occurs_at_def)
  qed
  then have "str_split sep s = [s]"
    by (rule Cons.IH)
  with no0 show ?case by simp
qed

text \<open>What the code computes: the display name is cut at the first occurrence of the word
  with its leading space, wherever that is, and nothing is cut when there is none.\<close>

lemma region_title_of_cut:
  assumes "\<forall>i < length a. \<not> occurs_at '' Region'' (a @ '' Region'' @ b) i"
  shows "region_title_of (a @ '' Region'' @ b) =
           (if startswith a ''Area'' then ''Chatham Islands'' else a)"
proof -
  have "hd (str_split '' Region'' (a @ '' Region'' @ b)) = a"
    by (rule str_split_hd_before_first) (use assms in simp_all)
  then show ?thesis
    by (simp add: region_title_of_def)
qed

lemma region_title_of_other:
  assumes "\<forall>i < length s. \<not> occurs_at '' Region'' s i"
  shows "region_title_of s = (if startswith s ''Area'' then ''Chatham Islands'' else s)"
  by (simp add: region_title_of_def str_split_no_occurrence [OF assms])

lemma region_title_of_examples:
  "region_title_of ''Otago Region'' = ''Otago''
   \<and> region_title_of ''Area Outside Region'' = ''Chatham Islands''
   \<and> region_title_of ''Nelson'' = ''Nelson''"
  by code_simp

text \<open>
  C2. The title of a display name is meant to be the name without a trailing \<open>Region\<close>
  suffix, a name that neither ends in that suffix nor begins with \<open>Area\<close> being left as it
  is. The code keeps what stands before the first occurrence of the suffix, wherever it
  occurs: the name below neither ends in the suffix nor begins with \<open>Area\<close>, and loses
  everything from the first occurrence on.
\<close>

theorem region_title_cut_at_first_occurrence:
  "\<not> endswith ''Lake Region North'' '' Region''
   \<and> \<not> startswith ''Lake Region North'' ''Area''
   \<and> region_title_of ''Lake Region North'' = ''Lake''
   \<and> region_title_of ''Lake Region North'' \<noteq> ''Lake Region North''"
  by code_simp

section \<open>The classifier\<close>

lemma group_paths_append:
  "group_paths P k (xs @ ys) = group_paths P k xs @ group_paths P k ys"
  by (simp add: group_paths_def)

lemma group_paths_Nil: "group_paths P k [] = []"
  by (simp add: group_paths_def)

lemma group_paths_empty_iff:
  "group_paths P k entries = [] \<longleftrightarrow> k \<notin> stem ` snd ` set entries"
  by (force simp: group_paths_def filter_empty_conv)

lemma extend_Nil: "extend d k [] = d k"
  by (simp add: extend_def split: option.splits)

lemma extend_twice:
  "extend (\<lambda>k. extend d k (g k)) k new = extend d k (g k @ new)"
  by (auto simp: extend_def split: option.splits)

lemma classify_file_lookup:
  "classify_file P root d f k =
     extend d k (group_paths P k (if endswith f ''.asc'' then [(root, f)] else []))"
  by (auto simp: classify_file_def extend_def group_paths_def stem_def
           split: option.splits prod.splits)

lemma foldl_classify_lookup:
  "foldl (classify_file P root) d files k =
     extend d k (group_paths P k (map (Pair root) (filter (\<lambda>f. endswith f ''.asc'') files)))"
proof (induction files arbitrary: d k)
  case Nil
  show ?case by (simp add: group_paths_Nil extend_Nil)
next
  case (Cons f files)
  have step: "classify_file P root d f =
      (\<lambda>k. extend d k (group_paths P k (if endswith f ''.asc'' then [(root, f)] else [])))"
    by (rule ext) (rule classify_file_lookup)
  show ?case
    by (simp only: foldl_Cons Cons.IH step extend_twice)
       (simp add: group_paths_def)
qed

text \<open>From any starting dictionary: every key gains the paths of its stem, in traversal
  order.\<close>

lemma parse_walk_lookup:
  "parse_walk P d walk k = extend d k (group_paths P k (asc_files walk))"
proof (induction walk arbitrary: d k)
  case Nil
  show ?case by (simp add: asc_files_def group_paths_Nil extend_Nil)
next
  case (Cons entry walk)
  obtain root dirs files where entry: "entry = (root, dirs, files)"
    by (cases entry) auto
  have step: "foldl (classify_file P root) d files =
      (\<lambda>k. extend d k
             (group_paths P k (map (Pair root) (filter (\<lambda>f. endswith f ''.asc'') files))))"
    by (rule ext) (rule foldl_classify_lookup)
  show ?case
    by (simp only: entry parse_walk.simps Cons.IH step extend_twice)
       (simp add: asc_files_def group_paths_append)
qed

lemma parse_input_files_init:
  "parse_input_files P ascfile_dict_init walk k =
     (if group_paths P k (asc_files walk) = [] then None
      else Some (group_paths P k (asc_files walk)))"
  by (simp add: parse_input_files_def ascfile_dict_init_def parse_walk_lookup extend_def)

lemma dom_parse_input_files_init:
  "dom (parse_input_files P ascfile_dict_init walk) = stem ` snd ` set (asc_files walk)"
  by (auto simp: dom_def parse_input_files_init group_paths_empty_iff)

lemma union_parse_input_files_init:
  "\<Union> (set ` ran (parse_input_files P ascfile_dict_init walk)) =
     (\<lambda>(root, f). os_path_join P root f) ` set (asc_files walk)"
proof (rule set_eqI)
  fix x
  let ?A = "asc_files walk"
  have "x \<in> \<Union> (set ` ran (parse_input_files P ascfile_dict_init walk)) \<longleftrightarrow>
        (\<exists>k. x \<in> set (group_paths P k ?A))"
  proof
    assume "x \<in> \<Union> (set ` ran (parse_input_files P ascfile_dict_init walk))"
    then obtain k paths where
      "parse_input_files P ascfile_dict_init walk k = Some paths" and "x \<in> set paths"
      by (auto simp: ran_def)
    then have "x \<in> set (group_paths P k ?A)"
      by (simp add: parse_input_files_init split: if_splits)
    then show "\<exists>k. x \<in> set (group_paths P k ?A)" ..
  next
    assume "\<exists>k. x \<in> set (group_paths P k ?A)"
    then obtain k where x: "x \<in> set (group_paths P k ?A)" ..
    then have "group_paths P k ?A \<noteq> []" by auto
    then have "parse_input_files P ascfile_dict_init walk k = Some (group_paths P k ?A)"
      by (simp add: parse_input_files_init)
    then have "group_paths P k ?A \<in> ran (parse_input_files P ascfile_dict_init walk)"
      by (rule ranI)
    with x show "x \<in> \<Union> (set ` ran (parse_input_files P ascfile_dict_init walk))"
      by blast
  qed
  also have "\<dots> \<longleftrightarrow> x \<in> (\<lambda>(root, f). os_path_join P root f) ` set ?A"
    by (auto simp: group_paths_def)
  finally show "x \<in> \<Union> (set ` ran (parse_input_files P ascfile_dict_init walk)) \<longleftrightarrow>
                x \<in> (\<lambda>(root, f). os_path_join P root f) ` set ?A" .
qed

lemma sum_length_groups:
  assumes "finite A" and "g ` set xs \<subseteq> A"
  shows "(\<Sum>k\<in>A. length (filter (\<lambda>x. g x = k) xs)) = length xs"
  using assms(2)
proof (induction xs)
  case Nil
  show ?case by simp
next
  case (Cons x xs)
  then have IH: "(\<Sum>k\<in>A. length (filter (\<lambda>x. g x = k) xs)) = length xs"
    and xA: "g x \<in> A"
    by auto
  have "(\<Sum>k\<in>A. length (filter (\<lambda>y. g y = k) (x # xs))) =
        (\<Sum>k\<in>A. (if g x = k then 1 else 0) + length (filter (\<lambda>y. g y = k) xs))"
    by (rule sum.cong) auto
  also have "\<dots> = (\<Sum>k\<in>A. if g x = k then 1 else 0) + length xs"
    by (simp add: sum.distrib IH)
  also have "(\<Sum>k\<in>A. if g x = k then 1 else 0) = (1::nat)"
    using assms(1) xA by simp
  finally show ?case by simp
qed

lemma total_parse_input_files_init:
  "(\<Sum>k \<in> dom (parse_input_files P ascfile_dict_init walk).
      length (the (parse_input_files P ascfile_dict_init walk k))) = length (asc_files walk)"
proof -
  let ?A = "asc_files walk"
  let ?K = "stem ` snd ` set ?A"
  have "(\<Sum>k \<in> ?K. length (the (parse_input_files P ascfile_dict_init walk k))) =
        (\<Sum>k \<in> ?K. length (filter (\<lambda>e. (stem \<circ> snd) e = k) ?A))"
    by (rule sum.cong)
       (force simp: parse_input_files_init group_paths_def case_prod_unfold filter_empty_conv)+
  also have "\<dots> = length ?A"
    by (rule sum_length_groups) (auto simp: image_image)
  finally show ?thesis
    by (simp add: dom_parse_input_files_init)
qed

lemma rfind_absent: "c \<notin> set s \<Longrightarrow> rfind s c = -1"
  by (induction s) auto

lemma rfind_last_occurrence: "c \<notin> set ys \<Longrightarrow> rfind (xs @ c # ys) c = int (length xs)"
  by (induction xs) (auto simp: rfind_absent Let_def)

lemma endswith_split: "endswith s p \<Longrightarrow> s = take (length s - length p) s @ p"
  by (metis append_take_drop_id endswith_def)

text \<open>The stem of a grid file name that holds no path separator: \<open>splitext\<close> removes the
  extension unless nothing but dots precedes it.\<close>

lemma stem_of_asc:
  assumes e: "endswith f ''.asc''" and nosep: "\<forall>c \<in> set f. \<not> is_sep c"
  shows "stem f = (if \<exists>c \<in> set (strip_asc f). c \<noteq> CHR ''.'' then strip_asc f else f)"
proof -
  define pre where "pre = take (length f - 4) f"
  have "length ''.asc'' = 4"
    by simp
  with endswith_split [OF e] have f: "f = pre @ CHR ''.'' # ''asc''"
    unfolding pre_def by metis
  have dot: "rfind f (CHR ''.'') = int (length pre)"
    by (subst f) (rule rfind_last_occurrence, simp)
  have s1: "rfind f backslash = -1" and s2: "rfind f (CHR ''/'') = -1"
    using nosep by (auto intro!: rfind_absent simp: is_sep_def)
  have tk: "take (length pre) f = pre"
    by (subst f) simp
  show ?thesis
    unfolding stem_def strip_asc_def os_path_splitext_def Let_def s1 s2 dot pre_def [symmetric]
    by (simp add: tk)
qed

lemma asc_files_endswith: "(root, f) \<in> set (asc_files walk) \<Longrightarrow> endswith f ''.asc''"
  by (auto simp: asc_files_def)

text \<open>
  C3, as the code has it. Take the files of the traversal whose names end in the grid
  extension, \<open>N\<close> of them, and their stems as \<open>os.path.splitext\<close> gives them. The first
  call of the classifier (the module-level dictionary is still empty) returns a mapping
  whose keys are exactly these stems; under each key stand the joined paths
  \<open>os.path.join(root, file)\<close> of the files of that stem, from whatever folder, in traversal
  order; the lists together hold exactly the paths of the \<open>N\<close> files, and their lengths add
  up to \<open>N\<close>. The stem of a separator-free name is the name without the extension, except
  that a name with nothing but dots before the extension is its own stem.
\<close>

theorem classifier_groups:
  "dom (parse_input_files P ascfile_dict_init walk) = stem ` snd ` set (asc_files walk)
   \<and> (\<forall>k \<in> stem ` snd ` set (asc_files walk).
         parse_input_files P ascfile_dict_init walk k = Some (group_paths P k (asc_files walk)))
   \<and> \<Union> (set ` ran (parse_input_files P ascfile_dict_init walk)) =
        (\<lambda>(root, f). os_path_join P root f) ` set (asc_files walk)
   \<and> (\<Sum>k \<in> dom (parse_input_files P ascfile_dict_init walk).
         length (the (parse_input_files P ascfile_dict_init walk k))) = length (asc_files walk)
   \<and> (\<forall>(root, f) \<in> set (asc_files walk). (\<forall>c \<in> set f. \<not> is_sep c) \<longrightarrow>
         stem f = (if \<exists>c \<in> set (strip_asc f). c \<noteq> CHR ''.'' then strip_asc f else f))"
proof -
  have groups: "\<forall>k \<in> stem ` snd ` set (asc_files walk).
         parse_input_files P ascfile_dict_init walk k = Some (group_paths P k (asc_files walk))"
    by (simp add: parse_input_files_init group_paths_empty_iff)
  have stems: "\<forall>(root, f) \<in> set (asc_files walk). (\<forall>c \<in> set f. \<not> is_sep c) \<longrightarrow>
         stem f = (if \<exists>c \<in> set (strip_asc f). c \<noteq> CHR ''.'' then strip_asc f else f)"
    using asc_files_endswith stem_of_asc by blast
  from dom_parse_input_files_init [of P walk] groups union_parse_input_files_init [of P walk]
    total_parse_input_files_init [of P walk] stems
  show ?thesis by blast
qed

theorem classifier_groups_witness:
  "dom (parse_input_files ntpath ascfile_dict_init sample_walk) =
     {''g_00_a_b_c_monthly1'', ''g_01_a_b_c_annual''}
   \<and> parse_input_files ntpath ascfile_dict_init sample_walk ''g_00_a_b_c_monthly1'' =
       Some [''grids'' @ backslash # ''13'' @ backslash # ''g_00_a_b_c_monthly1.asc'',
             ''grids'' @ backslash # ''14'' @ backslash # ''g_00_a_b_c_monthly1.asc'']
   \<and> (\<Sum>k \<in> dom (parse_input_files ntpath ascfile_dict_init sample_walk).
         length (the (parse_input_files ntpath ascfile_dict_init sample_walk k))) = 3"
proof -
  note inst = classifier_groups [of ntpath sample_walk]
  have stems: "stem ` snd ` set (asc_files sample_walk) =
                 {''g_00_a_b_c_monthly1'', ''g_01_a_b_c_annual''}"
    by code_simp
  have key: "''g_00_a_b_c_monthly1'' \<in> stem ` snd ` set (asc_files sample_walk)"
    by code_simp
  have paths: "group_paths ntpath ''g_00_a_b_c_monthly1'' (asc_files sample_walk) =
       [''grids'' @ backslash # ''13'' @ backslash # ''g_00_a_b_c_monthly1.asc'',
        ''grids'' @ backslash # ''14'' @ backslash # ''g_00_a_b_c_monthly1.asc'']"
    by code_simp
  have count: "length (asc_files sample_walk) = 3"
    by code_simp
  have a: "dom (parse_input_files ntpath ascfile_dict_init sample_walk) =
     {''g_00_a_b_c_monthly1'', ''g_01_a_b_c_annual''}"
    by (rule trans [OF inst [THEN conjunct1] stems])
  have "parse_input_files ntpath ascfile_dict_init sample_walk ''g_00_a_b_c_monthly1'' =
        Some (group_paths ntpath ''g_00_a_b_c_monthly1'' (asc_files sample_walk))"
    by (rule bspec [OF inst [THEN conjunct2, THEN conjunct1] key])
  then have b: "parse_input_files ntpath ascfile_dict_init sample_walk
      ''g_00_a_b_c_monthly1'' =
       Some [''grids'' @ backslash # ''13'' @ backslash # ''g_00_a_b_c_monthly1.asc'',
             ''grids'' @ backslash # ''14'' @ backslash # ''g_00_a_b_c_monthly1.asc'']"
    by (rule trans) (rule arg_cong [of _ _ Some, OF paths])
  have c: "(\<Sum>k \<in> dom (parse_input_files ntpath ascfile_dict_init sample_walk).
         length (the (parse_input_files ntpath ascfile_dict_init sample_walk k))) = 3"
    by (rule trans [OF inst [THEN conjunct2, THEN conjunct2, THEN conjunct2, THEN conjunct1]
          count])
  from a b c show ?thesis by (intro conjI)
qed

text \<open>
  A relative input location with two files whose names end in the grid extension and
  differ once the extension is cut off: both are recorded under one key, that key is the
  whole name of the first, and the recorded paths are relative.
\<close>

theorem classifier_dotfile_counterexample:
  "endswith ''.asc'' ''.asc'' \<and> endswith ''.asc.asc'' ''.asc''
   \<and> map strip_asc [''.asc'', ''.asc.asc''] = ['''', ''.asc'']
   \<and> dom (parse_input_files ntpath ascfile_dict_init
             [(''grids'', [], [''.asc'', ''.asc.asc''])]) = {''.asc''}
   \<and> parse_input_files ntpath ascfile_dict_init
        [(''grids'', [], [''.asc'', ''.asc.asc''])] ''.asc'' =
       Some [''grids'' @ backslash # ''.asc'', ''grids'' @ backslash # ''.asc.asc'']
   \<and> \<not> ntpath_isabs (''grids'' @ backslash # ''.asc'')
   \<and> \<not> ntpath_isabs (''grids'' @ backslash # ''.asc.asc'')"
proof -
  have a: "endswith ''.asc'' ''.asc'' \<and> endswith ''.asc.asc'' ''.asc''"
    by code_simp
  have b: "map strip_asc [''.asc'', ''.asc.asc''] = ['''', ''.asc'']"
    by code_simp
  have "stem ` snd ` set (asc_files [(''grids'', [], [''.asc'', ''.asc.asc''])]) = {''.asc''}"
    by code_simp
  then have c: "dom (parse_input_files ntpath ascfile_dict_init
             [(''grids'', [], [''.asc'', ''.asc.asc''])]) = {''.asc''}"
    by (simp only: dom_parse_input_files_init)
  have d: "parse_input_files ntpath ascfile_dict_init
        [(''grids'', [], [''.asc'', ''.asc.asc''])] ''.asc'' =
       Some [''grids'' @ backslash # ''.asc'', ''grids'' @ backslash # ''.asc.asc'']"
    by code_simp
  have e: "\<not> ntpath_isabs (''grids'' @ backslash # ''.asc'')
           \<and> \<not> ntpath_isabs (''grids'' @ backslash # ''.asc.asc'')"
    by code_simp
  from a b c d e show ?thesis by (intro conjI) simp_all
qed

lemma parse_input_files_again:
  "parse_input_files P (parse_input_files P ascfile_dict_init walk) walk k =
     map_option (\<lambda>paths. paths @ paths) (parse_input_files P ascfile_dict_init walk k)"
proof -
  have "parse_input_files P (parse_input_files P ascfile_dict_init walk) walk k =
        extend (parse_input_files P ascfile_dict_init walk) k (group_paths P k (asc_files walk))"
    by (simp add: parse_input_files_def parse_walk_lookup)
  then show ?thesis
    by (simp add: extend_def parse_input_files_init)
qed

text \<open>
  C8. The classifier adds to the module-level dictionary instead of building a fresh one.
  A second call over the same traversal returns, under every key, the list of the first
  call followed by itself, so every recorded path is there twice as often; as soon as the
  traversal holds one grid file the second result differs from the first.
\<close>

theorem classifier_second_call:
  "parse_input_files P (parse_input_files P ascfile_dict_init walk) walk k =
     map_option (\<lambda>paths. paths @ paths) (parse_input_files P ascfile_dict_init walk k)
   \<and> (asc_files walk \<noteq> [] \<longrightarrow>
        parse_input_files P (parse_input_files P ascfile_dict_init walk) walk \<noteq>
        parse_input_files P ascfile_dict_init walk)"
proof -
  have differs: "parse_input_files P (parse_input_files P ascfile_dict_init walk) walk \<noteq>
        parse_input_files P ascfile_dict_init walk"
    if "asc_files walk \<noteq> []"
  proof -
    from that obtain root f where rf: "(root, f) \<in> set (asc_files walk)"
      by (cases "asc_files walk") auto
    then have "stem f \<in> stem ` snd ` set (asc_files walk)"
      by force
    then have ne: "group_paths P (stem f) (asc_files walk) \<noteq> []"
      by (simp add: group_paths_empty_iff)
    then have first: "parse_input_files P ascfile_dict_init walk (stem f) =
        Some (group_paths P (stem f) (asc_files walk))"
      by (simp add: parse_input_files_init)
    then have "parse_input_files P (parse_input_files P ascfile_dict_init walk) walk (stem f) =
        Some (group_paths P (stem f) (asc_files walk) @ group_paths P (stem f) (asc_files walk))"
      by (simp add: parse_input_files_again)
    with first ne have
      "parse_input_files P (parse_input_files P ascfile_dict_init walk) walk (stem f) \<noteq>
       parse_input_files P ascfile_dict_init walk (stem f)"
      by simp
    then show ?thesis by metis
  qed
  with parse_input_files_again [of P walk k] show ?thesis by blast
qed

theorem classifier_second_call_witness:
  "asc_files sample_walk \<noteq> []
   \<and> parse_input_files ntpath ascfile_dict_init sample_walk ''g_01_a_b_c_annual'' =
       Some [''grids'' @ backslash # ''14'' @ backslash # ''g_01_a_b_c_annual.asc'']
   \<and> parse_input_files ntpath (parse_input_files ntpath ascfile_dict_init sample_walk)
        sample_walk ''g_01_a_b_c_annual'' =
       Some [''grids'' @ backslash # ''14'' @ backslash # ''g_01_a_b_c_annual.asc'',
             ''grids'' @ backslash # ''14'' @ backslash # ''g_01_a_b_c_annual.asc'']
   \<and> parse_input_files ntpath (parse_input_files ntpath ascfile_dict_init sample_walk)
        sample_walk \<noteq>
       parse_input_files ntpath ascfile_dict_init sample_walk"
proof -
  note inst = classifier_second_call [of ntpath sample_walk "''g_01_a_b_c_annual''"]
  have h: "asc_files sample_walk \<noteq> []"
    by code_simp
  have first: "parse_input_files ntpath ascfile_dict_init sample_walk ''g_01_a_b_c_annual'' =
       Some [''grids'' @ backslash # ''14'' @ backslash # ''g_01_a_b_c_annual.asc'']"
    by code_simp
  have twice: "map_option (\<lambda>paths. paths @ paths)
         (parse_input_files ntpath ascfile_dict_init sample_walk ''g_01_a_b_c_annual'') =
       Some [''grids'' @ backslash # ''14'' @ backslash # ''g_01_a_b_c_annual.asc'',
             ''grids'' @ backslash # ''14'' @ backslash # ''g_01_a_b_c_annual.asc'']"
    by code_simp
  have second: "parse_input_files ntpath
        (parse_input_files ntpath ascfile_dict_init sample_walk)
        sample_walk ''g_01_a_b_c_annual'' =
       Some [''grids'' @ backslash # ''14'' @ backslash # ''g_01_a_b_c_annual.asc'',
             ''grids'' @ backslash # ''14'' @ backslash # ''g_01_a_b_c_annual.asc'']"
    by (rule trans [OF inst [THEN conjunct1] twice])
  have differs: "parse_input_files ntpath
        (parse_input_files ntpath ascfile_dict_init sample_walk) sample_walk \<noteq>
       parse_input_files ntpath ascfile_dict_init sample_walk"
    by (rule mp [OF inst [THEN conjunct2] h])
  from h first second differs show ?thesis by (intro conjI)
qed

section \<open>The upload stage\<close>

lemma str_strip_no_leading:
  "\<not> startswith p ''/'' \<Longrightarrow> str_strip p ''/'' = str_rstrip p ''/''"
  by (cases p) (auto simp: startswith_def str_strip_def str_rstrip_def)

lemma rstrip_keeps_head:
  assumes "q \<noteq> []" and "\<not> Q (hd q)"
  shows "rev (dropWhile Q (rev q)) \<noteq> [] \<and> hd (rev (dropWhile Q (rev q))) = hd q"
proof -
  from assms obtain x q' where q: "q = x # q'" and x: "\<not> Q x"
    by (cases q) auto
  have "dropWhile Q (rev q' @ [x]) = dropWhile Q (rev q') @ [x]"
    using x by (simp add: dropWhile_append)
  then have "rev (dropWhile Q (rev q)) = x # rev (dropWhile Q (rev q'))"
    by (simp add: q)
  then show ?thesis by (simp add: q)
qed

lemma str_strip_head:
  assumes "\<exists>c \<in> set p. c \<noteq> CHR ''/''"
  shows "str_strip p ''/'' \<noteq> [] \<and> hd (str_strip p ''/'') \<noteq> CHR ''/''"
proof -
  let ?Q = "\<lambda>c. c \<in> set ''/''"
  let ?q = "dropWhile ?Q p"
  from assms have ne: "?q \<noteq> []"
    by auto
  then have hdq: "\<not> ?Q (hd ?q)"
    by (rule hd_dropWhile)
  from rstrip_keeps_head [of ?q ?Q, OF ne hdq] hdq show ?thesis
    by (simp add: str_strip_def)
qed

lemma str_strip_all_slashes:
  assumes "\<forall>c \<in> set p. c = CHR ''/''"
  shows "str_strip p ''/'' = []"
proof -
  from assms have d: "dropWhile (\<lambda>c. c \<in> set ''/'') p = []"
    by simp
  show ?thesis unfolding str_strip_def d by simp
qed

text \<open>
  C6, as the code has it. Without a prefix, or with the empty prefix, the object key is the
  base name of the file. With a non-empty prefix the key is the prefix without its leading
  and trailing slashes, a slash, and the base name; when the prefix does not begin with a
  slash this is the prefix without its trailing slashes, a slash, and the base name.
\<close>

theorem object_name_key:
  "object_name P file_path None = os_path_basename P file_path
   \<and> object_name P file_path (Some []) = os_path_basename P file_path
   \<and> (p \<noteq> [] \<longrightarrow>
        object_name P file_path (Some p) =
          str_strip p ''/'' @ ''/'' @ os_path_basename P file_path)
   \<and> (p \<noteq> [] \<and> \<not> startswith p ''/'' \<longrightarrow>
        object_name P file_path (Some p) =
          str_rstrip p ''/'' @ ''/'' @ os_path_basename P file_path)"
  by (simp add: object_name_def str_strip_no_leading)

theorem object_name_key_witness:
  "''climatology-grids/'' \<noteq> [] \<and> \<not> startswith ''climatology-grids/'' ''/''
   \<and> os_path_basename ntpath (OUTPUT_FOLDER_ZIPPED @ backslash # ''foo.zip'') = ''foo.zip''
   \<and> object_name ntpath (OUTPUT_FOLDER_ZIPPED @ backslash # ''foo.zip'')
        (Some ''climatology-grids/'') = ''climatology-grids/foo.zip''
   \<and> object_name ntpath (OUTPUT_FOLDER_ZIPPED @ backslash # ''foo.zip'') (Some []) = ''foo.zip''"
proof -
  note inst = object_name_key [of ntpath "OUTPUT_FOLDER_ZIPPED @ backslash # ''foo.zip''"
                  "''climatology-grids/''"]
  have h: "''climatology-grids/'' \<noteq> [] \<and> \<not> startswith ''climatology-grids/'' ''/''"
    by code_simp
  have bn: "os_path_basename ntpath (OUTPUT_FOLDER_ZIPPED @ backslash # ''foo.zip'') = ''foo.zip''"
    by code_simp
  have v: "str_rstrip ''climatology-grids/'' ''/'' @ ''/'' @
           os_path_basename ntpath (OUTPUT_FOLDER_ZIPPED @ backslash # ''foo.zip'') =
           ''climatology-grids/foo.zip''"
    by code_simp
  have k: "object_name ntpath (OUTPUT_FOLDER_ZIPPED @ backslash # ''foo.zip'')
        (Some ''climatology-grids/'') = ''climatology-grids/foo.zip''"
    by (rule trans [OF mp [OF inst [THEN conjunct2, THEN conjunct2, THEN conjunct2] h] v])
  have e: "object_name ntpath (OUTPUT_FOLDER_ZIPPED @ backslash # ''foo.zip'') (Some []) =
           ''foo.zip''"
    by (rule trans [OF inst [THEN conjunct2, THEN conjunct1] bn])
  from h bn k e show ?thesis by (intro conjI) simp_all
qed

text \<open>A prefix with a leading slash: the key is not the prefix without its trailing
  slashes followed by a slash and the base name.\<close>

theorem object_name_leading_slash_counterexample:
  "object_name ntpath ''foo.zip'' (Some ''/climatology-grids/'') = ''climatology-grids/foo.zip''
   \<and> str_rstrip ''/climatology-grids/'' ''/'' @ ''/'' @ os_path_basename ntpath ''foo.zip'' =
       ''/climatology-grids/foo.zip''
   \<and> object_name ntpath ''foo.zip'' (Some ''/climatology-grids/'') \<noteq>
       str_rstrip ''/climatology-grids/'' ''/'' @ ''/'' @ os_path_basename ntpath ''foo.zip''"
  by code_simp

text \<open>
  C9, as the code has it. For a non-empty prefix the key is the prefix without its leading
  and trailing slashes, a slash, and the base name. When the prefix holds a character other
  than the slash, the key has no leading slash and its first path segment is not empty.
  A non-empty prefix made of slashes only gives a slash followed by the base name.
\<close>

theorem object_name_leading_segment:
  "(p \<noteq> [] \<longrightarrow>
      object_name P file_path (Some p) =
        str_strip p ''/'' @ ''/'' @ os_path_basename P file_path)
   \<and> ((\<exists>c \<in> set p. c \<noteq> CHR ''/'') \<longrightarrow>
        \<not> startswith (object_name P file_path (Some p)) ''/''
        \<and> hd (str_split ''/'' (object_name P file_path (Some p))) \<noteq> [])
   \<and> (p \<noteq> [] \<and> (\<forall>c \<in> set p. c = CHR ''/'') \<longrightarrow>
        object_name P file_path (Some p) = ''/'' @ os_path_basename P file_path)"
proof -
  have a: "p \<noteq> [] \<longrightarrow>
      object_name P file_path (Some p) =
        str_strip p ''/'' @ ''/'' @ os_path_basename P file_path"
    by (simp add: object_name_def)
  have b: "\<not> startswith (object_name P file_path (Some p)) ''/''
        \<and> hd (str_split ''/'' (object_name P file_path (Some p))) \<noteq> []"
    if h: "\<exists>c \<in> set p. c \<noteq> CHR ''/''"
  proof -
    from h have pne: "p \<noteq> []" by auto
    from str_strip_head [OF h] obtain x xs where
      s: "str_strip p ''/'' = x # xs" and x: "x \<noteq> CHR ''/''"
      by (cases "str_strip p ''/''") auto
    have key: "object_name P file_path (Some p) = x # xs @ ''/'' @ os_path_basename P file_path"
      using pne by (simp add: object_name_def s)
    have "hd (str_split ''/'' (x # xs @ ''/'' @ os_path_basename P file_path)) \<noteq> []"
      using x by (simp add: startswith_def split: list.splits)
    with x show ?thesis
      by (simp add: key startswith_def)
  qed
  have c: "p \<noteq> [] \<and> (\<forall>c \<in> set p. c = CHR ''/'') \<longrightarrow>
        object_name P file_path (Some p) = ''/'' @ os_path_basename P file_path"
    by (simp add: object_name_def str_strip_all_slashes)
  from a b c show ?thesis by blast
qed

theorem object_name_leading_segment_witness:
  "(\<exists>c \<in> set ''/climatology-grids/''. c \<noteq> CHR ''/'')
   \<and> object_name ntpath ''foo.zip'' (Some ''/climatology-grids/'') = ''climatology-grids/foo.zip''
   \<and> \<not> startswith (object_name ntpath ''foo.zip'' (Some ''/climatology-grids/'')) ''/''
   \<and> hd (str_split ''/'' (object_name ntpath ''foo.zip'' (Some ''/climatology-grids/''))) \<noteq> []"
proof -
  note inst = object_name_leading_segment [of "''/climatology-grids/''" ntpath "''foo.zip''"]
  have h: "\<exists>c \<in> set ''/climatology-grids/''. c \<noteq> CHR ''/''"
    by code_simp
  have ne: "''/climatology-grids/'' \<noteq> []"
    by simp
  have v: "str_strip ''/climatology-grids/'' ''/'' @ ''/'' @ os_path_basename ntpath ''foo.zip'' =
           ''climatology-grids/foo.zip''"
    by code_simp
  have k: "object_name ntpath ''foo.zip'' (Some ''/climatology-grids/'') =
           ''climatology-grids/foo.zip''"
    by (rule trans [OF mp [OF inst [THEN conjunct1] ne] v])
  from mp [OF inst [THEN conjunct2, THEN conjunct1] h] h k show ?thesis
    by (intro conjI) blast+
qed

text \<open>A prefix that is a single slash: the key begins with a slash and its first path
  segment is empty.\<close>

theorem object_name_slash_prefix_counterexample:
  "''/'' \<noteq> [] \<and> startswith ''/'' ''/''
   \<and> object_name ntpath ''foo.zip'' (Some ''/'') = ''/foo.zip''
   \<and> startswith (object_name ntpath ''foo.zip'' (Some ''/'')) ''/''
   \<and> hd (str_split ''/'' (object_name ntpath ''foo.zip'' (Some ''/''))) = []"
  by code_simp

text \<open>
  C7. Whatever the upload attempt does, \<open>upload_file\<close> returns: the result is \<open>True\<close> when
  the storage call succeeded and \<open>False\<close> otherwise, and never an exception. When the import
  of the storage library failed at start-up the name of the resource is unbound, and the
  result is \<open>False\<close>.
\<close>

theorem upload_file_returns:
  "upload_file P resource file_path bucket_name prefix =
     Inr (s3_upload_file resource bucket_name file_path (object_name P file_path prefix) = Inr ())
   \<and> upload_file P None file_path bucket_name prefix = Inr False
   \<and> boto3_import_guard (Inl (ImportError msg)) = Inr None"
  by (auto simp: upload_file_def try_except_def and_then_def s3_upload_file_def
        boto3_import_guard_def split: sum.splits option.splits)

theorem upload_file_returns_witness:
  "upload_file ntpath (Some refusing_s3) ''foo.zip'' ''COMPANY-data-hub''
     (Some ''climatology-grids'') = Inr False
   \<and> upload_file ntpath (Some accepting_s3) ''foo.zip'' ''COMPANY-data-hub''
     (Some ''climatology-grids'') = Inr True
   \<and> upload_file ntpath None ''foo.zip'' ''COMPANY-data-hub''
     (Some ''climatology-grids'') = Inr False"
proof -
  have r: "(s3_upload_file (Some refusing_s3) ''COMPANY-data-hub'' ''foo.zip''
             (object_name ntpath ''foo.zip'' (Some ''climatology-grids'')) = Inr ()) = False"
    by code_simp
  have a: "(s3_upload_file (Some accepting_s3) ''COMPANY-data-hub'' ''foo.zip''
             (object_name ntpath ''foo.zip'' (Some ''climatology-grids'')) = Inr ()) = True"
    by code_simp
  have 1: "upload_file ntpath (Some refusing_s3) ''foo.zip'' ''COMPANY-data-hub''
     (Some ''climatology-grids'') = Inr False"
    by (rule trans [OF upload_file_returns [THEN conjunct1] arg_cong [of _ _ Inr, OF r]])
  have 2: "upload_file ntpath (Some accepting_s3) ''foo.zip'' ''COMPANY-data-hub''
     (Some ''climatology-grids'') = Inr True"
    by (rule trans [OF upload_file_returns [THEN conjunct1] arg_cong [of _ _ Inr, OF a]])
  have 3: "upload_file ntpath None ''foo.zip'' ''COMPANY-data-hub''
     (Some ''climatology-grids'') = Inr False"
    by (rule upload_file_returns [THEN conjunct2, THEN conjunct1])
  from 1 2 3 show ?thesis by (intro conjI)
qed

section \<open>The packaging stage\<close>

lemma zip_member_eq:
  "zip_member P zw dir base z f =
     Inr (if startswith f base \<and> \<not> endswith f ''.lock''
          then (case zw (os_path_join P dir f) f of
                  Inr u \<Rightarrow> z\<lparr>members := members z @ [f]\<rparr>
                | Inl e \<Rightarrow> z\<lparr>logged := logged z @ [(f, e)]\<rparr>)
          else z)"
  by (simp add: zip_member_def try_except_def and_then_def split: sum.splits)

text \<open>The loop over the listing never ends in an exception; what it leaves in the archive
  and in the log is decided file by file.\<close>

lemma zip_members_eq:
  "zip_members P zw dir base z listing =
     Inr (z\<lparr>members := members z @
                filter (\<lambda>f. startswith f base \<and> \<not> endswith f ''.lock'' \<and>
                            zw (os_path_join P dir f) f = Inr ()) listing,
             logged := logged z @
                concat (map (\<lambda>f. if startswith f base \<and> \<not> endswith f ''.lock''
                                  then (case zw (os_path_join P dir f) f of
                                          Inl e \<Rightarrow> [(f, e)] | Inr u \<Rightarrow> [])
                                  else []) listing)\<rparr>)"
proof (induction listing arbitrary: z)
  case Nil
  show ?case by simp
next
  case (Cons f listing)
  show ?case
    by (simp add: zip_member_eq and_then_def Cons.IH split: sum.splits)
qed

lemma package_eq:
  "package P ls zw raster =
     Inr (os_path_join P OUTPUT_FOLDER_ZIPPED (tif_base_name P raster @ ''.zip''),
          \<lparr>members =
             filter (\<lambda>f. startswith f (tif_base_name P raster) \<and> \<not> endswith f ''.lock'' \<and>
                         written P zw raster f)
                    (ls (base_clip_dir P raster)),
           logged =
             concat (map (\<lambda>f. if startswith f (tif_base_name P raster) \<and> \<not> endswith f ''.lock''
                               then (case zw (os_path_join P (base_clip_dir P raster) f) f of
                                       Inl e \<Rightarrow> [(f, e)] | Inr u \<Rightarrow> [])
                               else [])
                         (ls (base_clip_dir P raster)))\<rparr>)"
proof -
  obtain d n where sp: "os_path_split P raster = (d, n)"
    by (cases "os_path_split P raster") auto
  obtain b x where se: "os_path_splitext n = (b, x)"
    by (cases "os_path_splitext n") auto
  show ?thesis
    unfolding base_clip_dir_def tif_base_name_def written_def sp se fst_conv snd_conv
    by (simp add: package_def zip_members_eq and_then_def sp se)
qed

lemma package_ex:
  "\<exists>zip_file.
     package P ls zw raster =
       Inr (os_path_join P OUTPUT_FOLDER_ZIPPED (tif_base_name P raster @ ''.zip''), zip_file)
     \<and> members zip_file =
          filter (\<lambda>f. startswith f (tif_base_name P raster) \<and> \<not> endswith f ''.lock'' \<and>
                      written P zw raster f)
                 (ls (base_clip_dir P raster))
     \<and> logged zip_file =
          concat (map (\<lambda>f. if startswith f (tif_base_name P raster) \<and> \<not> endswith f ''.lock''
                            then (case zw (os_path_join P (base_clip_dir P raster) f) f of
                                    Inl e \<Rightarrow> [(f, e)] | Inr u \<Rightarrow> [])
                            else [])
                      (ls (base_clip_dir P raster)))"
  by (simp add: package_eq)

text \<open>
  C5. Packaging a clipped raster always produces an archive. Its members are, in the order
  of the directory listing, the files of the raster's directory whose names start with the
  raster's base name, do not end in the lock-file extension, and could be written: no
  member ends in the lock-file extension, every other file with the base name as a prefix
  whose write succeeds is a member, whatever happens to the writes of the other files, and
  a file whose write fails is logged and left out.
\<close>

theorem package_members:
  "\<exists>zip_file.
     package P ls zw raster =
       Inr (os_path_join P OUTPUT_FOLDER_ZIPPED (tif_base_name P raster @ ''.zip''), zip_file)
     \<and> members zip_file =
         filter (\<lambda>f. startswith f (tif_base_name P raster) \<and> \<not> endswith f ''.lock'' \<and>
                     written P zw raster f)
                (ls (base_clip_dir P raster))
     \<and> (\<forall>f \<in> set (members zip_file). \<not> endswith f ''.lock'')
     \<and> (\<forall>f \<in> set (ls (base_clip_dir P raster)).
           startswith f (tif_base_name P raster) \<and> \<not> endswith f ''.lock'' \<and>
           written P zw raster f \<longrightarrow> f \<in> set (members zip_file))
     \<and> (\<forall>f \<in> set (ls (base_clip_dir P raster)).
           startswith f (tif_base_name P raster) \<and> \<not> endswith f ''.lock'' \<and>
           \<not> written P zw raster f \<longrightarrow>
             f \<in> fst ` set (logged zip_file) \<and> f \<notin> set (members zip_file))"
proof -
  define keep where
    "keep = (\<lambda>f. startswith f (tif_base_name P raster) \<and> \<not> endswith f ''.lock'')"
  define listing where "listing = ls (base_clip_dir P raster)"
  obtain zip_file where
    pk: "package P ls zw raster =
       Inr (os_path_join P OUTPUT_FOLDER_ZIPPED (tif_base_name P raster @ ''.zip''), zip_file)"
    and mem: "members zip_file =
       filter (\<lambda>f. startswith f (tif_base_name P raster) \<and> \<not> endswith f ''.lock'' \<and>
                   written P zw raster f) listing"
    and log: "logged zip_file =
       concat (map (\<lambda>f. if keep f
                         then (case zw (os_path_join P (base_clip_dir P raster) f) f of
                                 Inl e \<Rightarrow> [(f, e)] | Inr u \<Rightarrow> [])
                         else []) listing)"
    unfolding keep_def listing_def
    by (rule exE [OF package_ex [of P ls zw raster]]) blast
  have no_lock: "\<forall>f \<in> set (members zip_file). \<not> endswith f ''.lock''"
    by (simp add: mem)
  have included:
    "\<forall>f \<in> set listing. keep f \<and> written P zw raster f \<longrightarrow> f \<in> set (members zip_file)"
    by (simp add: mem keep_def)
  have failed: "f \<in> fst ` set (logged zip_file) \<and> f \<notin> set (members zip_file)"
    if f: "f \<in> set listing" and k: "keep f" and w: "\<not> written P zw raster f" for f
  proof -
    from w obtain e where e: "zw (os_path_join P (base_clip_dir P raster) f) f = Inl e"
      by (cases "zw (os_path_join P (base_clip_dir P raster) f) f") (auto simp: written_def)
    have "(f, e) \<in> set (logged zip_file)"
      unfolding log using f k e by auto
    then have "f \<in> fst ` set (logged zip_file)"
      by (rule image_eqI [of _ _ "(f, e)", rotated]) simp
    moreover from w have "f \<notin> set (members zip_file)"
      by (simp add: mem)
    ultimately show ?thesis ..
  qed
  show ?thesis
    apply (rule exI [of _ zip_file])
    apply (intro conjI)
        apply (rule pk)
       apply (simp add: mem keep_def listing_def)
      apply (rule no_lock)
    using included apply (simp add: keep_def listing_def)
    using failed apply (simp add: keep_def listing_def)
    done
qed

theorem package_members_witness:
  "\<exists>zip_file.
     package ntpath sample_listdir sample_zip_write
       (''regions_grids/13/Total-Sunshine_c_1991-2020_Annual_Otago.tif'') =
       Inr (OUTPUT_FOLDER_ZIPPED @ backslash # ''Total-Sunshine_c_1991-2020_Annual_Otago.zip'',
            zip_file)
     \<and> members zip_file =
         [''Total-Sunshine_c_1991-2020_Annual_Otago.tif'',
          ''Total-Sunshine_c_1991-2020_Annual_Otago.tif.aux.xml'']"
proof -
  let ?raster = "''regions_grids/13/Total-Sunshine_c_1991-2020_Annual_Otago.tif''"
  from package_members [of ntpath sample_listdir sample_zip_write ?raster]
  obtain zip_file where
    pk: "package ntpath sample_listdir sample_zip_write ?raster =
       Inr (os_path_join ntpath OUTPUT_FOLDER_ZIPPED (tif_base_name ntpath ?raster @ ''.zip''),
            zip_file)"
    and mem: "members zip_file =
         filter (\<lambda>f. startswith f (tif_base_name ntpath ?raster) \<and> \<not> endswith f ''.lock'' \<and>
                     written ntpath sample_zip_write ?raster f)
                (sample_listdir (base_clip_dir ntpath ?raster))"
    by blast
  have path: "os_path_join ntpath OUTPUT_FOLDER_ZIPPED (tif_base_name ntpath ?raster @ ''.zip'') =
        OUTPUT_FOLDER_ZIPPED @ backslash # ''Total-Sunshine_c_1991-2020_Annual_Otago.zip''"
    by code_simp
  have files: "filter (\<lambda>f. startswith f (tif_base_name ntpath ?raster) \<and>
                     \<not> endswith f ''.lock'' \<and> written ntpath sample_zip_write ?raster f)
                (sample_listdir (base_clip_dir ntpath ?raster)) =
         [''Total-Sunshine_c_1991-2020_Annual_Otago.tif'',
          ''Total-Sunshine_c_1991-2020_Annual_Otago.tif.aux.xml'']"
    by code_simp
  from pk path have "package ntpath sample_listdir sample_zip_write ?raster =
       Inr (OUTPUT_FOLDER_ZIPPED @ backslash # ''Total-Sunshine_c_1991-2020_Annual_Otago.zip'',
            zip_file)"
    by (simp only:)
  moreover from mem files have "members zip_file =
         [''Total-Sunshine_c_1991-2020_Annual_Otago.tif'',
          ''Total-Sunshine_c_1991-2020_Annual_Otago.tif.aux.xml'']"
    by (simp only:)
  ultimately show ?thesis by blast
qed

section \<open>The metadata emitter\<close>

lemma py_index_0: "xs \<noteq> [] \<Longrightarrow> py_index xs 0 = Inr (xs ! 0)"
  using py_index_nth [of 0 xs] by simp

text \<open>A file name with fewer than three segments: reading \<open>components[2]\<close> raises.\<close>

lemma create_json_file_short:
  assumes "length (components P file_path) < 3"
  shows "create_json_file P reproj iso_string file_path prefix extent title month_and_season
           = Inl IndexError"
proof -
  have ne: "str_split ''_'' (os_path_basename P file_path) \<noteq> []"
    by (rule str_split_not_Nil)
  have two: "py_index (str_split ''_'' (os_path_basename P file_path)) 2 = Inl IndexError"
    using assms py_index_beyond [of "str_split ''_'' (os_path_basename P file_path)" 2]
    by (simp add: components_def)
  show ?thesis
    by (simp add: create_json_file_def Let_def and_then_def py_index_0 [OF ne] two)
qed

text \<open>A file name with at least three segments: the path and the document.\<close>

lemma create_json_file_long:
  assumes "3 \<le> length (components P file_path)"
  shows "create_json_file P reproj iso_string file_path prefix extent title month_and_season =
       Inr (os_path_join P OUTPUT_FOLDER_ZIPPED
              (fst (os_path_splitext (snd (os_path_split P file_path))) @ ''.json''),
            JObject
              [(''src'', JString (''/'' @ prefix @ ''/'' @
                  fst (os_path_splitext (os_path_basename P file_path)) @ ''.zip'')),
               (''productRef'', JString prefix),
               (''metadata'', JObject
                  [(''title'', JString (''Climatology Grid '' @
                      dash_to_space (components P file_path ! 0) @
                      '' (1991-2020), '' @ month_and_season @ '', Region: '' @ title)),
                   (''description'', JString (''This dataset comprises a 500m resolution '' @
                      ''grid of climatologic normals (averages) for: Parameter: '' @
                      dash_to_space (components P file_path ! 0) @
                      ''; Statistic: '' @ components P file_path ! 1 @
                      ''; Period: '' @ components P file_path ! 2 @
                      ''; '' @ month_and_season @ ''; Region: '' @ title)),
                   (''geojson'', JObject [(''type'', JString ''Polygon''),
                      (''coordinates'', JArray
                         (map (\<lambda>part. JArray (map (\<lambda>(x, y). JArray [JNumber x, JNumber y]) part))
                              (reproj extent)))]),
                   (''dateMin'', JObject [(''$date'', JString ''1991-01-01T00:00:00Z'')]),
                   (''dateMax'', JObject [(''$date'', JString ''2020-12-31T00:00:00Z'')]),
                   (''version'', JString ''1.0''),
                   (''updatedAt'', JObject [(''$date'', JString (iso_string @ ''Z''))]),
                   (''parameter'', JString (dash_to_space (components P file_path ! 0))),
                   (''period'', JString month_and_season),
                   (''statistic'', JString (components P file_path ! 1)),
                   (''region'', JString title)])])"
proof -
  let ?c = "str_split ''_'' (os_path_basename P file_path)"
  have ne: "?c \<noteq> []"
    by (rule str_split_not_Nil)
  have i1: "py_index ?c 1 = Inr (?c ! 1)"
    using assms py_index_nth [of 1 ?c] by (simp add: components_def)
  have i2: "py_index ?c 2 = Inr (?c ! 2)"
    using assms py_index_nth [of 2 ?c] by (simp add: components_def)
  have il: "py_index ?c (-1) = Inr (last ?c)"
    by (rule py_index_last [OF ne])
  have ir: "py_index (str_split ''.'' (last ?c)) 0 = Inr (str_split ''.'' (last ?c) ! 0)"
    by (rule py_index_0 [OF str_split_not_Nil])
  obtain d n where sp: "os_path_split P file_path = (d, n)"
    by (cases "os_path_split P file_path") auto
  show ?thesis
    by (simp add: create_json_file_def Let_def and_then_def py_index_0 [OF ne] i1 i2 il ir sp
          components_def dash_to_space_def iso_date_str_start_def iso_date_str_stop_def)
qed

text \<open>The names that the processing loop gives to clipped rasters have at least three
  underscore-delimited segments: the parameter name holds no dot, so the cut at the first
  dot keeps it and the underscore after it.\<close>

lemma length_str_split_char:
  "length (str_split [c] s) = Suc (length (filter (\<lambda>x. x = c) s))"
proof (induction s)
  case Nil
  show ?case by simp
next
  case (Cons x s)
  obtain h t where ht: "str_split [c] s = h # t"
    using str_split_not_Nil [of "[c]" s] by (cases "str_split [c] s") auto
  with Cons.IH have "length t = length (filter (\<lambda>x. x = c) s)" by simp
  with ht show ?case by (simp add: startswith_def)
qed

lemma hd_str_split_char_append:
  "c \<notin> set a \<Longrightarrow> hd (str_split [c] (a @ b)) = a @ hd (str_split [c] b)"
proof (induction a)
  case Nil
  show ?case by simp
next
  case (Cons x a)
  obtain h t where ht: "str_split [c] (a @ b) = h # t"
    using str_split_not_Nil [of "[c]" "a @ b"] by (cases "str_split [c] (a @ b)") auto
  with Cons show ?case by (auto simp: startswith_def)
qed

lemma parameter_names_without_dot:
  "lookup_dict_parameter code = Some parameter_name \<Longrightarrow> CHR ''.'' \<notin> set parameter_name"
  by (auto simp: lookup_dict_parameter_def split: if_splits)

lemma new_file_name_shape:
  assumes "new_file_name base_name = Inr name"
  shows "\<exists>parameter_name rest. name = parameter_name @ ''_'' @ rest
           \<and> CHR ''.'' \<notin> set parameter_name"
proof -
  from assms obtain code pn p4 ms where
    "lookup_dict_parameter code = Some pn"
    "name = pn @ ''_'' @ p4 @ ''_1991-2020_'' @ ms"
    by (auto simp: new_file_name_def and_then_def dict_get_def
             split: sum.splits prod.splits option.splits)
  then show ?thesis
    using parameter_names_without_dot by blast
qed

lemma clipped_raster_name_segments:
  assumes "new_file_name base_name = Inr name"
  shows "3 \<le> length (str_split ''_''
                        (hd (str_split ''.'' name) @ ''_'' @ region_name @ ''.tif''))"
proof -
  from new_file_name_shape [OF assms] obtain pn rest where
    name: "name = pn @ ''_'' @ rest" and dot: "CHR ''.'' \<notin> set pn"
    by blast
  have "hd (str_split ''.'' name) = pn @ hd (str_split ''.'' (''_'' @ rest))"
    unfolding name by (rule hd_str_split_char_append [OF dot])
  also have "hd (str_split ''.'' (''_'' @ rest)) = ''_'' @ hd (str_split ''.'' rest)"
    by (rule hd_str_split_char_append) simp
  finally have "hd (str_split ''.'' name) = pn @ ''_'' @ hd (str_split ''.'' rest)" .
  then show ?thesis
    by (simp add: length_str_split_char)
qed

text \<open>
  C1, as the code has it. The name of a clipped raster, as the processing loop composes it
  from a derived product name and a region name, has at least three underscore-delimited
  segments. For a file name with at least three segments the emitter writes a document
  whose metadata block has: as \<open>parameter\<close>, segment 0 with every dash replaced by a
  space; as \<open>statistic\<close>, segment 1 as it is; as \<open>period\<close>, the period label that was
  passed in; as \<open>region\<close>, the region title that was passed in. Segment 2 appears in the
  description only. With fewer than three segments the emitter raises IndexError.
\<close>

theorem metadata_fields:
  "(new_file_name base_name = Inr name \<and>
    os_path_basename P file_path =
      hd (str_split ''.'' name) @ ''_'' @ region_name @ ''.tif'' \<longrightarrow>
      3 \<le> length (components P file_path))
   \<and> (3 \<le> length (components P file_path) \<longrightarrow>
      document_field [''metadata'', ''parameter'']
        (create_json_file P reproj iso_string file_path prefix extent title month_and_season) =
          Some (JString (dash_to_space (components P file_path ! 0)))
    \<and> document_field [''metadata'', ''statistic'']
        (create_json_file P reproj iso_string file_path prefix extent title month_and_season) =
          Some (JString (components P file_path ! 1))
    \<and> document_field [''metadata'', ''period'']
        (create_json_file P reproj iso_string file_path prefix extent title month_and_season) =
          Some (JString month_and_season)
    \<and> document_field [''metadata'', ''region'']
        (create_json_file P reproj iso_string file_path prefix extent title month_and_season) =
          Some (JString title)
    \<and> document_field [''metadata'', ''description'']
        (create_json_file P reproj iso_string file_path prefix extent title month_and_season) =
          Some (JString (''This dataset comprises a 500m resolution '' @
                  ''grid of climatologic normals (averages) for: Parameter: '' @
                  dash_to_space (components P file_path ! 0) @
                  ''; Statistic: '' @ components P file_path ! 1 @
                  ''; Period: '' @ components P file_path ! 2 @
                  ''; '' @ month_and_season @ ''; Region: '' @ title)))
   \<and> (length (components P file_path) < 3 \<longrightarrow>
        create_json_file P reproj iso_string file_path prefix extent title month_and_season =
          Inl IndexError)"
proof (intro conjI impI)
  assume "new_file_name base_name = Inr name \<and>
    os_path_basename P file_path = hd (str_split ''.'' name) @ ''_'' @ region_name @ ''.tif''"
  then show "3 \<le> length (components P file_path)"
    using clipped_raster_name_segments [of base_name name region_name]
    by (simp add: components_def)
next
  assume long: "3 \<le> length (components P file_path)"
  note doc = create_json_file_long [OF long, of reproj iso_string prefix extent title
               month_and_season]
  show "document_field [''metadata'', ''parameter'']
        (create_json_file P reproj iso_string file_path prefix extent title month_and_season) =
          Some (JString (dash_to_space (components P file_path ! 0)))"
    by (simp add: doc document_field_def)
  show "document_field [''metadata'', ''statistic'']
        (create_json_file P reproj iso_string file_path prefix extent title month_and_season) =
          Some (JString (components P file_path ! 1))"
    by (simp add: doc document_field_def)
  show "document_field [''metadata'', ''period'']
        (create_json_file P reproj iso_string file_path prefix extent title month_and_season) =
          Some (JString month_and_season)"
    by (simp add: doc document_field_def)
  show "document_field [''metadata'', ''region'']
        (create_json_file P reproj iso_string file_path prefix extent title month_and_season) =
          Some (JString title)"
    by (simp add: doc document_field_def)
  show "document_field [''metadata'', ''description'']
        (create_json_file P reproj iso_string file_path prefix extent title month_and_season) =
          Some (JString (''This dataset comprises a 500m resolution '' @
                  ''grid of climatologic normals (averages) for: Parameter: '' @
                  dash_to_space (components P file_path ! 0) @
                  ''; Statistic: '' @ components P file_path ! 1 @
                  ''; Period: '' @ components P file_path ! 2 @
                  ''; '' @ month_and_season @ ''; Region: '' @ title))"
    by (simp add: doc document_field_def)
next
  assume "length (components P file_path) < 3"
  then show "create_json_file P reproj iso_string file_path prefix extent title
               month_and_season = Inl IndexError"
    by (rule create_json_file_short)
qed

theorem metadata_fields_witness:
  "new_file_name ''grid_00_mean_nz_mm_monthly1'' = Inr ''Total-Rainfall_mm_1991-2020_January''
   \<and> os_path_basename ntpath sample_raster =
       hd (str_split ''.'' ''Total-Rainfall_mm_1991-2020_January'') @ ''_'' @
       ''Bay-Of-Plenty'' @ ''.tif''
   \<and> 3 \<le> length (components ntpath sample_raster)
   \<and> document_field [''metadata'', ''parameter'']
       (create_json_file ntpath (reproject sample_world) ''2024-06-24T12:00:00'' sample_raster
          ''climatology-grids'' () ''Bay of Plenty'' ''January'') =
         Some (JString ''Total Rainfall'')
   \<and> document_field [''metadata'', ''statistic'']
       (create_json_file ntpath (reproject sample_world) ''2024-06-24T12:00:00'' sample_raster
          ''climatology-grids'' () ''Bay of Plenty'' ''January'') =
         Some (JString ''mm'')
   \<and> document_field [''metadata'', ''period'']
       (create_json_file ntpath (reproject sample_world) ''2024-06-24T12:00:00'' sample_raster
          ''climatology-grids'' () ''Bay of Plenty'' ''January'') =
         Some (JString ''January'')
   \<and> document_field [''metadata'', ''region'']
       (create_json_file ntpath (reproject sample_world) ''2024-06-24T12:00:00'' sample_raster
          ''climatology-grids'' () ''Bay of Plenty'' ''January'') =
         Some (JString ''Bay of Plenty'')"
proof -
  note inst = metadata_fields [of "''grid_00_mean_nz_mm_monthly1''"
      "''Total-Rainfall_mm_1991-2020_January''" ntpath sample_raster "''Bay-Of-Plenty''"
      "reproject sample_world" "''2024-06-24T12:00:00''" "''climatology-grids''" "()"
      "''Bay of Plenty''" "''January''"]
  have n: "new_file_name ''grid_00_mean_nz_mm_monthly1'' =
           Inr ''Total-Rainfall_mm_1991-2020_January''"
    by code_simp
  have r: "os_path_basename ntpath sample_raster =
       hd (str_split ''.'' ''Total-Rainfall_mm_1991-2020_January'') @ ''_'' @
       ''Bay-Of-Plenty'' @ ''.tif''"
    by code_simp
  have h: "3 \<le> length (components ntpath sample_raster)"
    by (rule mp [OF inst [THEN conjunct1] conjI [OF n r]])
  have p: "dash_to_space (components ntpath sample_raster ! 0) = ''Total Rainfall''"
    by code_simp
  have s: "components ntpath sample_raster ! 1 = ''mm''"
    by code_simp
  note facts = mp [OF inst [THEN conjunct2, THEN conjunct1] h]
  have a: "document_field [''metadata'', ''parameter'']
       (create_json_file ntpath (reproject sample_world) ''2024-06-24T12:00:00'' sample_raster
          ''climatology-grids'' () ''Bay of Plenty'' ''January'') =
         Some (JString ''Total Rainfall'')"
    by (rule trans [OF facts [THEN conjunct1]]) (simp only: p)
  have b: "document_field [''metadata'', ''statistic'']
       (create_json_file ntpath (reproject sample_world) ''2024-06-24T12:00:00'' sample_raster
          ''climatology-grids'' () ''Bay of Plenty'' ''January'') =
         Some (JString ''mm'')"
    by (rule trans [OF facts [THEN conjunct2, THEN conjunct1]]) (simp only: s)
  note c = facts [THEN conjunct2, THEN conjunct2, THEN conjunct1]
  note d = facts [THEN conjunct2, THEN conjunct2, THEN conjunct2, THEN conjunct1]
  from n r h a b c d show ?thesis by (intro conjI)
qed

text \<open>
  A clipped raster of the Bay of Plenty: segment 2 of its name is the date range and the
  last segment without the extension is the region name of the file, but the fields
  \<open>period\<close> and \<open>region\<close> of the metadata block are the period label and the region title.
\<close>

theorem metadata_period_region_counterexample:
  "components ntpath sample_raster ! 2 = ''1991-2020''
   \<and> document_field [''metadata'', ''period'']
       (create_json_file ntpath (reproject sample_world) ''2024-06-24T12:00:00'' sample_raster
          ''climatology-grids'' () ''Bay of Plenty'' ''January'') =
         Some (JString ''January'')
   \<and> document_field [''metadata'', ''period'']
       (create_json_file ntpath (reproject sample_world) ''2024-06-24T12:00:00'' sample_raster
          ''climatology-grids'' () ''Bay of Plenty'' ''January'') \<noteq>
         Some (JString (components ntpath sample_raster ! 2))
   \<and> hd (str_split ''.'' (last (components ntpath sample_raster))) = ''Bay-Of-Plenty''
   \<and> document_field [''metadata'', ''region'']
       (create_json_file ntpath (reproject sample_world) ''2024-06-24T12:00:00'' sample_raster
          ''climatology-grids'' () ''Bay of Plenty'' ''January'') =
         Some (JString ''Bay of Plenty'')
   \<and> document_field [''metadata'', ''region'']
       (create_json_file ntpath (reproject sample_world) ''2024-06-24T12:00:00'' sample_raster
          ''climatology-grids'' () ''Bay of Plenty'' ''January'') \<noteq>
         Some (JString (hd (str_split ''.'' (last (components ntpath sample_raster)))))"
  by code_simp

text \<open>
  C10. Two runs of the emitter on the same arguments, at two readings of the clock: both
  raise the same exception, or both return the same path and two documents that are equal
  once the field \<open>updatedAt\<close> of the metadata block is removed from each; every top-level
  field other than the metadata block, and every field of the metadata block other than
  \<open>updatedAt\<close>, is the same in both. The field \<open>updatedAt\<close> holds the reading of the clock,
  followed by \<open>Z\<close>.
\<close>

theorem metadata_equal_up_to_updatedAt:
  "map_sum id (map_prod id without_updatedAt)
     (create_json_file P reproj iso1 file_path prefix extent title month_and_season) =
   map_sum id (map_prod id without_updatedAt)
     (create_json_file P reproj iso2 file_path prefix extent title month_and_season)
   \<and> (\<forall>k. k \<noteq> ''metadata'' \<longrightarrow>
         document_field [k]
           (create_json_file P reproj iso1 file_path prefix extent title month_and_season) =
         document_field [k]
           (create_json_file P reproj iso2 file_path prefix extent title month_and_season))
   \<and> (\<forall>k. k \<noteq> ''updatedAt'' \<longrightarrow>
         document_field [''metadata'', k]
           (create_json_file P reproj iso1 file_path prefix extent title month_and_season) =
         document_field [''metadata'', k]
           (create_json_file P reproj iso2 file_path prefix extent title month_and_season))
   \<and> (3 \<le> length (components P file_path) \<longrightarrow>
         document_field [''metadata'', ''updatedAt'']
           (create_json_file P reproj iso1 file_path prefix extent title month_and_season) =
         Some (JObject [(''$date'', JString (iso1 @ ''Z''))]))"
proof (cases "3 \<le> length (components P file_path)")
  case True
  note d1 = create_json_file_long [OF True, of reproj iso1 prefix extent title month_and_season]
  note d2 = create_json_file_long [OF True, of reproj iso2 prefix extent title month_and_season]
  have a: "map_sum id (map_prod id without_updatedAt)
     (create_json_file P reproj iso1 file_path prefix extent title month_and_season) =
   map_sum id (map_prod id without_updatedAt)
     (create_json_file P reproj iso2 file_path prefix extent title month_and_season)"
    by (simp add: d1 d2)
  have b: "document_field [k]
           (create_json_file P reproj iso1 file_path prefix extent title month_and_season) =
         document_field [k]
           (create_json_file P reproj iso2 file_path prefix extent title month_and_season)"
    if "k \<noteq> ''metadata''" for k
    using that by (simp add: d1 d2 document_field_def)
  have c: "document_field [''metadata'', k]
           (create_json_file P reproj iso1 file_path prefix extent title month_and_season) =
         document_field [''metadata'', k]
           (create_json_file P reproj iso2 file_path prefix extent title month_and_season)"
    if "k \<noteq> ''updatedAt''" for k
    using that by (simp add: d1 d2 document_field_def)
  have d: "document_field [''metadata'', ''updatedAt'']
           (create_json_file P reproj iso1 file_path prefix extent title month_and_season) =
         Some (JObject [(''$date'', JString (iso1 @ ''Z''))])"
    by (simp add: d1 document_field_def)
  from a b c d show ?thesis by blast
next
  case False
  then have short: "length (components P file_path) < 3" by simp
  show ?thesis
    using False by (simp add: create_json_file_short [OF short])
qed

theorem metadata_equal_up_to_updatedAt_witness:
  "3 \<le> length (components ntpath sample_raster)
   \<and> map_sum id (map_prod id without_updatedAt)
       (create_json_file ntpath (reproject sample_world) ''2024-06-24T12:00:00'' sample_raster
          ''climatology-grids'' () ''Bay of Plenty'' ''January'') =
      map_sum id (map_prod id without_updatedAt)
       (create_json_file ntpath (reproject sample_world) ''2024-06-24T12:00:07'' sample_raster
          ''climatology-grids'' () ''Bay of Plenty'' ''January'')
   \<and> document_field [''metadata'', ''updatedAt'']
       (create_json_file ntpath (reproject sample_world) ''2024-06-24T12:00:00'' sample_raster
          ''climatology-grids'' () ''Bay of Plenty'' ''January'') =
      Some (JObject [(''$date'', JString ''2024-06-24T12:00:00Z'')])
   \<and> document_field [''metadata'', ''updatedAt'']
       (create_json_file ntpath (reproject sample_world) ''2024-06-24T12:00:07'' sample_raster
          ''climatology-grids'' () ''Bay of Plenty'' ''January'') =
      Some (JObject [(''$date'', JString ''2024-06-24T12:00:07Z'')])"
proof -
  have h: "3 \<le> length (components ntpath sample_raster)"
    by code_simp
  note first = metadata_equal_up_to_updatedAt [of ntpath "reproject sample_world"
      "''2024-06-24T12:00:00''" sample_raster "''climatology-grids''" "()" "''Bay of Plenty''"
      "''January''" "''2024-06-24T12:00:07''"]
  note second = metadata_equal_up_to_updatedAt [of ntpath "reproject sample_world"
      "''2024-06-24T12:00:07''" sample_raster "''climatology-grids''" "()" "''Bay of Plenty''"
      "''January''" "''2024-06-24T12:00:00''"]
  note a = first [THEN conjunct1]
  have b: "document_field [''metadata'', ''updatedAt'']
       (create_json_file ntpath (reproject sample_world) ''2024-06-24T12:00:00'' sample_raster
          ''climatology-grids'' () ''Bay of Plenty'' ''January'') =
      Some (JObject [(''$date'', JString ''2024-06-24T12:00:00Z'')])"
    using mp [OF first [THEN conjunct2, THEN conjunct2, THEN conjunct2] h] by simp
  have c: "document_field [''metadata'', ''updatedAt'']
       (create_json_file ntpath (reproject sample_world) ''2024-06-24T12:00:07'' sample_raster
          ''climatology-grids'' () ''Bay of Plenty'' ''January'') =
      Some (JObject [(''$date'', JString ''2024-06-24T12:00:07Z'')])"
    using mp [OF second [THEN conjunct2, THEN conjunct2, THEN conjunct2] h] by simp
  from h a b c show ?thesis by (intro conjI)
qed

end
